theory Spec2Isabelle
  imports Main "HOL-Library.AList"
begin

section \<open>The service worker of the downloader extension\<close>

text \<open>
  This theory embeds the service worker (native messaging bridge and download
  orchestrator) of the extension. The worker is single threaded and event driven: every
  listener runs to completion, then the promise reactions it has queued run, then the next
  browser event is taken. The embedding follows that shape.

  \<^item> The four module variables \<open>nativePort\<close>, \<open>pendingCallbacks\<close>, \<open>downloadCallbacks\<close>
    and \<open>messageId\<close> are fields of a record. The two \<open>Map\<close>s are association lists in
    insertion order (\<open>Map.set\<close> is \<open>AList.update\<close>: it overwrites in place or appends;
    \<open>Map.delete\<close> is \<open>AList.delete\<close>; \<open>Map.forEach\<close> is a left fold).
  \<^item> Everything the worker does to the outside (a call of a browser API, an invocation of
    a promise's \<open>resolve\<close> or \<open>reject\<close>, a reply to the requesting page) is appended
    to the field \<open>trace\<close>.
  \<^item> What the browser decides (whether \<open>connectNative\<close> or \<open>postMessage\<close> throws,
    the clock and random digits behind a download identifier) is an argument.
  \<^item> An \<open>await\<close> splits a handler in two: the part before it runs inside the listener,
    the part after it is a reaction queued in the field \<open>microtasks\<close> when the promise
    is settled, and run when the listener has returned.
  \<^item> \<open>messageId\<close> is a natural number (the source's double is exact up to \<open>2^53\<close>).
    \<open>console\<close> output is not modelled, and the browser calls other than
    \<open>connectNative\<close> and \<open>postMessage\<close> (\<open>sendMessage\<close>, \<open>notifications.create\<close>,
    \<open>setTimeout\<close>, \<open>storage.session.set\<close>) are taken not to throw.
\<close>

subsection \<open>Messages\<close>

text \<open>
  A message received from the native host: the fields the worker reads. A field that is
  absent is \<open>None\<close>. Only a number can be a key of \<open>pendingCallbacks\<close>, so an \<open>id\<close> of
  any other JSON type behaves as an absent one; \<open>progress\<close> is forwarded unread.
\<close>

record message =
  msg_id :: "nat option"
  msg_type :: "string option"
  msg_downloadId :: "string option"
  msg_error :: "string option"
  msg_progress :: "string option"
  msg_filename :: "string option"
  msg_ytdlpVersion :: "string option"
  msg_ffmpegVersion :: "string option"
  msg_path :: "string option"

text \<open>JavaScript truthiness of a number (\<open>0\<close> is falsy) and of a string (\<open>""\<close> is falsy).\<close>

definition truthy_num :: "nat option \<Rightarrow> bool" where
  "truthy_num x = (case x of None \<Rightarrow> False | Some n \<Rightarrow> n \<noteq> 0)"

definition truthy_str :: "string option \<Rightarrow> bool" where
  "truthy_str x = (case x of None \<Rightarrow> False | Some s \<Rightarrow> s \<noteq> [])"

text \<open>A value inside a template literal: \<open>undefined\<close> prints as the word.\<close>

definition template :: "string option \<Rightarrow> string" where
  "template x = (case x of None \<Rightarrow> ''undefined'' | Some s \<Rightarrow> s)"

text \<open>The options of a \<open>startDownload\<close> request, as the popup sends them.\<close>

record options =
  url :: "string option"
  format :: "string option"
  output_path :: "string option"
  extension :: "string option"
  subtitles :: "bool option"
  audioOnly :: "bool option"
  audioQuality :: "string option"
  title :: "string option"

text \<open>The \<open>data\<close> argument of \<open>sendNativeMessage\<close>, one constructor per call site.\<close>

datatype data =
    NoData
  | DownloadData string options
  | CancelData string
  | OpenFolderData "string option"

text \<open>The message \<open>{ id, action, ...data }\<close> written to the port.\<close>

record native_request =
  req_id :: nat
  req_action :: string
  req_data :: data

subsection \<open>Promises\<close>

datatype outcome = Resolved message | Rejected string

text \<open>
  The pair \<open>{ resolve, reject }\<close> stored in \<open>pendingCallbacks\<close> belongs to the promise of
  one call of \<open>sendNativeMessage\<close>; what settling it sets off is fixed by the handler that
  made the call, which is what a callback records here.
\<close>

datatype callback =
    TestConnectionCb
  | StartDownloadCb string
  | CancelDownloadCb string
  | SelectDirectoryCb
  | OpenFolderCb

text \<open>What a handler returns to the page through \<open>sendResponse\<close>.\<close>

datatype response =
    Connected "string option" "string option"
  | NotConnected string
  | DownloadStarted string
  | Success
  | Path "string option"
  | ErrorResponse string

text \<open>The message \<open>chrome.runtime.sendMessage\<close> delivers to the popup.\<close>

datatype ui_message =
    DownloadProgress string "string option"
  | DownloadComplete string "string option"
  | DownloadError string "string option"

datatype effect =
    ConnectNative
  | PortDisconnect nat
  | PostMessage native_request
  | SetTimeout nat nat
  | Settle "nat option" outcome
  | RuntimeSendMessage ui_message
  | NotificationCreate string string nat
  | StorageSessionSet string
  | SendResponse response

datatype microtask = Continue callback outcome | Reply response

text \<open>A timer armed by \<open>setTimeout\<close>: the \<open>id\<close> and \<open>reject\<close> its closure captured.\<close>

datatype timer = Timer nat callback

fun timer_id :: "timer \<Rightarrow> nat" where
  "timer_id (Timer i c) = i"

subsection \<open>State\<close>

record state =
  nativePort :: "nat option"
  pendingCallbacks :: "(nat \<times> callback) list"
  downloadCallbacks :: "(string \<times> bool) list"
  messageId :: nat
  timers :: "timer list"
  microtasks :: "microtask list"
  trace :: "effect list"

definition initial_state :: state where
  "initial_state = \<lparr> nativePort = None, pendingCallbacks = [], downloadCallbacks = [],
     messageId = 0, timers = [], microtasks = [], trace = [] \<rparr>"

definition emit :: "effect \<Rightarrow> state \<Rightarrow> state" where
  "emit e s = s\<lparr>trace := trace s @ [e]\<rparr>"

text \<open>
  Calling \<open>resolve\<close> or \<open>reject\<close> of a pending promise: the call is recorded, and the
  reaction of the awaiting handler is queued.
\<close>

definition settle :: "nat option \<Rightarrow> callback \<Rightarrow> outcome \<Rightarrow> state \<Rightarrow> state" where
  "settle i cb out s =
     s\<lparr>trace := trace s @ [Settle i out], microtasks := microtasks s @ [Continue cb out]\<rparr>"

definition has :: "'k \<Rightarrow> ('k \<times> 'v) list \<Rightarrow> bool" where
  "has k al = (map_of al k \<noteq> None)"

datatype connect_outcome = ConnectOk nat | ConnectThrows string

datatype post_outcome = PostOk | PostThrows string

subsection \<open>Native messaging\<close>

definition connectToNativeHost :: "connect_outcome \<Rightarrow> state \<Rightarrow> state \<times> bool" where
  "connectToNativeHost conn s =
     (let s1 = (case nativePort s of None \<Rightarrow> s | Some p \<Rightarrow> emit (PortDisconnect p) s);
          s2 = emit ConnectNative s1
      in case conn of
           ConnectOk p \<Rightarrow> (s2\<lparr>nativePort := Some p\<rparr>, True)
         | ConnectThrows e \<Rightarrow> (s2, False))"

definition notifyDownloadProgress :: "string \<Rightarrow> string option \<Rightarrow> state \<Rightarrow> state" where
  "notifyDownloadProgress downloadId progress s =
     emit (RuntimeSendMessage (DownloadProgress downloadId progress)) s"

definition notifyDownloadComplete :: "string \<Rightarrow> string option \<Rightarrow> state \<Rightarrow> state" where
  "notifyDownloadComplete downloadId filename s =
     emit (NotificationCreate ''Download Complete''
             (template filename @ '' has been downloaded successfully.'') 2)
       (emit (RuntimeSendMessage (DownloadComplete downloadId filename)) s)"

definition notifyDownloadError :: "string \<Rightarrow> string option \<Rightarrow> state \<Rightarrow> state" where
  "notifyDownloadError downloadId error s =
     emit (NotificationCreate ''Download Failed''
             (case error of
                Some e \<Rightarrow> if truthy_str error then e else ''An error occurred during download.''
              | None \<Rightarrow> ''An error occurred during download.'') 2)
       (emit (RuntimeSendMessage (DownloadError downloadId error)) s)"

definition delete_download :: "string \<Rightarrow> state \<Rightarrow> state" where
  "delete_download downloadId s =
     s\<lparr>downloadCallbacks := AList.delete downloadId (downloadCallbacks s)\<rparr>"

text \<open>
  The test \<open>message.id && pendingCallbacks.has(message.id)\<close>, with the entry found;
  and the test \<open>message.type === kind && message.downloadId\<close>, with the identifier.
\<close>

definition pending_entry :: "message \<Rightarrow> state \<Rightarrow> (nat \<times> callback) option" where
  "pending_entry m s =
     (case msg_id m of
        None \<Rightarrow> None
      | Some i \<Rightarrow>
          if truthy_num (Some i) then map_option (Pair i) (map_of (pendingCallbacks s) i)
          else None)"

definition job_event :: "string \<Rightarrow> message \<Rightarrow> string option" where
  "job_event kind m =
     (if msg_type m = Some kind \<and> truthy_str (msg_downloadId m) then msg_downloadId m else None)"

definition handleNativeMessage :: "message \<Rightarrow> state \<Rightarrow> state" where
  "handleNativeMessage m s =
     (case pending_entry m s of
        Some (i, cb) \<Rightarrow>
          (let s1 = s\<lparr>pendingCallbacks := AList.delete i (pendingCallbacks s)\<rparr>
           in case (if truthy_str (msg_error m) then msg_error m else None) of
                Some e \<Rightarrow> settle (Some i) cb (Rejected e) s1
              | None \<Rightarrow> settle (Some i) cb (Resolved m) s1)
      | None \<Rightarrow>
          (let s1 = (case job_event ''progress'' m of
                       Some d \<Rightarrow> notifyDownloadProgress d (msg_progress m) s
                     | None \<Rightarrow> s);
               s2 = (case job_event ''complete'' m of
                       Some d \<Rightarrow> delete_download d (notifyDownloadComplete d (msg_filename m) s1)
                     | None \<Rightarrow> s1);
               s3 = (case job_event ''error'' m of
                       Some d \<Rightarrow> delete_download d (notifyDownloadError d (msg_error m) s2)
                     | None \<Rightarrow> s2)
           in s3))"

text \<open>The listener registered on \<open>nativePort.onDisconnect\<close>.\<close>

definition onDisconnect :: "state \<Rightarrow> state" where
  "onDisconnect s =
     (let s1 = s\<lparr>nativePort := None\<rparr>;
          s2 = foldl (\<lambda>t (i, cb). settle (Some i) cb (Rejected ''Native host disconnected'') t)
                 s1 (pendingCallbacks s1);
          s3 = s2\<lparr>pendingCallbacks := []\<rparr>;
          s4 = foldl (\<lambda>t (d, b). notifyDownloadError d (Some ''Native host connection lost'') t)
                 s3 (downloadCallbacks s3)
      in s4\<lparr>downloadCallbacks := []\<rparr>)"

definition sendNativeMessage ::
  "connect_outcome \<Rightarrow> post_outcome \<Rightarrow> string \<Rightarrow> data \<Rightarrow> callback \<Rightarrow> state \<Rightarrow> state" where
  "sendNativeMessage conn post action dat cb s =
     (let (s1, ok) = (if nativePort s = None then connectToNativeHost conn s else (s, True))
      in if \<not> ok
         then settle None cb
                (Rejected ''Failed to connect to native host. Please check installation.'') s1
         else
           (let i = messageId s1 + 1;
                s2 = s1\<lparr>messageId := i\<rparr>;
                s3 = s2\<lparr>pendingCallbacks := AList.update i cb (pendingCallbacks s2)\<rparr>;
                s4 = (if action \<noteq> ''download''
                      then emit (SetTimeout i 30000) (s3\<lparr>timers := timers s3 @ [Timer i cb]\<rparr>)
                      else s3)
            in case post of
                 PostOk \<Rightarrow>
                   emit (PostMessage \<lparr>req_id = i, req_action = action, req_data = dat\<rparr>) s4
               | PostThrows e \<Rightarrow>
                   settle (Some i) cb (Rejected e)
                     (s4\<lparr>pendingCallbacks := AList.delete i (pendingCallbacks s4)\<rparr>)))"

text \<open>The function given to \<open>setTimeout\<close>, run when the timer fires.\<close>

definition timeoutFired :: "timer \<Rightarrow> state \<Rightarrow> state" where
  "timeoutFired t s =
     (case t of Timer i cb \<Rightarrow>
        if has i (pendingCallbacks s)
        then settle (Some i) cb (Rejected ''Request timed out'')
               (s\<lparr>pendingCallbacks := AList.delete i (pendingCallbacks s)\<rparr>)
        else s)"

subsection \<open>Message handlers\<close>

text \<open>
  Each handler that awaits its call has two parts: the call, and \<open>_resume\<close>, the rest of
  the \<open>async\<close> function, applied to the outcome of the promise. \<open>Inl\<close> is a thrown
  error.
\<close>

definition handleTestConnection :: "connect_outcome \<Rightarrow> post_outcome \<Rightarrow> state \<Rightarrow> state" where
  "handleTestConnection conn post s = sendNativeMessage conn post ''test'' NoData TestConnectionCb s"

definition handleTestConnection_resume :: "outcome \<Rightarrow> string + response" where
  "handleTestConnection_resume out =
     (case out of
        Resolved r \<Rightarrow> Inr (Connected (msg_ytdlpVersion r) (msg_ffmpegVersion r))
      | Rejected e \<Rightarrow> Inr (NotConnected e))"

definition handleStartDownload ::
  "connect_outcome \<Rightarrow> post_outcome \<Rightarrow> string \<Rightarrow> options \<Rightarrow> state \<Rightarrow> state \<times> (string + response)" where
  "handleStartDownload conn post downloadId opts s =
     (let s1 = s\<lparr>downloadCallbacks := AList.update downloadId True (downloadCallbacks s)\<rparr>;
          s2 = sendNativeMessage conn post ''download'' (DownloadData downloadId opts)
                 (StartDownloadCb downloadId) s1;
          s3 = emit (NotificationCreate ''Download Started''
                       (''Downloading: '' @ template (title opts)) 1) s2
      in (s3, Inr (DownloadStarted downloadId)))"

text \<open>The \<open>.catch\<close> reaction attached to the download call.\<close>

definition handleStartDownload_catch :: "string \<Rightarrow> string \<Rightarrow> state \<Rightarrow> state" where
  "handleStartDownload_catch downloadId e s =
     delete_download downloadId (notifyDownloadError downloadId (Some e) s)"

definition handleCancelDownload ::
  "connect_outcome \<Rightarrow> post_outcome \<Rightarrow> string \<Rightarrow> state \<Rightarrow> state" where
  "handleCancelDownload conn post downloadId s =
     sendNativeMessage conn post ''cancel'' (CancelData downloadId) (CancelDownloadCb downloadId) s"

definition handleCancelDownload_resume ::
  "string \<Rightarrow> outcome \<Rightarrow> state \<Rightarrow> state \<times> (string + response)" where
  "handleCancelDownload_resume downloadId out s =
     (case out of
        Resolved r \<Rightarrow> (delete_download downloadId s, Inr Success)
      | Rejected e \<Rightarrow> (s, Inl e))"

definition handleSelectDirectory :: "connect_outcome \<Rightarrow> post_outcome \<Rightarrow> state \<Rightarrow> state" where
  "handleSelectDirectory conn post s =
     sendNativeMessage conn post ''selectDirectory'' NoData SelectDirectoryCb s"

definition handleSelectDirectory_resume :: "outcome \<Rightarrow> string + response" where
  "handleSelectDirectory_resume out =
     (case out of Resolved r \<Rightarrow> Inr (Path (msg_path r)) | Rejected e \<Rightarrow> Inl e)"

definition handleOpenFolder ::
  "connect_outcome \<Rightarrow> post_outcome \<Rightarrow> string option \<Rightarrow> state \<Rightarrow> state" where
  "handleOpenFolder conn post path s =
     sendNativeMessage conn post ''openFolder'' (OpenFolderData path) OpenFolderCb s"

definition handleOpenFolder_resume :: "outcome \<Rightarrow> string + response" where
  "handleOpenFolder_resume out =
     (case out of Resolved r \<Rightarrow> Inr Success | Rejected e \<Rightarrow> Inl e)"

subsection \<open>The extension message listener\<close>

datatype request =
    TestConnection
  | StartDownload options
  | CancelDownload string
  | SelectDirectory
  | OpenFolder "string option"
  | OpenPopup "string option"
  | UnknownAction

text \<open>
  What the browser contributes to one request: the outcome of \<open>connectNative\<close> (read
  only if the port is absent), the outcome of \<open>postMessage\<close>, and the identifier built
  from \<open>Date.now()\<close> and \<open>Math.random()\<close>.
\<close>

record browser =
  connectNative_result :: connect_outcome
  postMessage_result :: post_outcome
  generated_downloadId :: string

text \<open>The \<open>try\<close>/\<open>catch\<close> of \<open>handleRequest\<close>: a thrown error is answered as \<open>{ error }\<close>.\<close>

definition reply_of :: "string + response \<Rightarrow> response" where
  "reply_of r = (case r of Inl e \<Rightarrow> ErrorResponse e | Inr v \<Rightarrow> v)"

definition enqueue :: "microtask \<Rightarrow> state \<Rightarrow> state" where
  "enqueue t s = s\<lparr>microtasks := microtasks s @ [t]\<rparr>"

definition handleRequest :: "request \<Rightarrow> browser \<Rightarrow> state \<Rightarrow> state" where
  "handleRequest req b s =
     (case req of
        TestConnection \<Rightarrow>
          handleTestConnection (connectNative_result b) (postMessage_result b) s
      | StartDownload opts \<Rightarrow>
          (let (s1, r) = handleStartDownload (connectNative_result b) (postMessage_result b)
                           (generated_downloadId b) opts s
           in enqueue (Reply (reply_of r)) s1)
      | CancelDownload d \<Rightarrow>
          handleCancelDownload (connectNative_result b) (postMessage_result b) d s
      | SelectDirectory \<Rightarrow>
          handleSelectDirectory (connectNative_result b) (postMessage_result b) s
      | OpenFolder p \<Rightarrow>
          handleOpenFolder (connectNative_result b) (postMessage_result b) p s
      | OpenPopup info \<Rightarrow>
          enqueue (Reply Success)
            (case (if truthy_str info then info else None) of
               None \<Rightarrow> s
             | Some v \<Rightarrow> emit (StorageSessionSet v) s)
      | UnknownAction \<Rightarrow> enqueue (Reply (ErrorResponse ''Unknown action'')) s)"

text \<open>
  The reaction to a settled call: the rest of the awaiting handler, then the reply of
  \<open>handleRequest\<close>. The download call is not awaited; its only reaction is the
  \<open>.catch\<close>. The ticks between the return of a handler and \<open>sendResponse\<close> are
  folded into the reaction, so a reply can stand in the trace before the effects of a
  reaction queued after it; the reply itself and everything else are in the source's order.
\<close>

definition continue :: "callback \<Rightarrow> outcome \<Rightarrow> state \<Rightarrow> state" where
  "continue cb out s =
     (case cb of
        TestConnectionCb \<Rightarrow> emit (SendResponse (reply_of (handleTestConnection_resume out))) s
      | StartDownloadCb d \<Rightarrow>
          (case out of Resolved r \<Rightarrow> s | Rejected e \<Rightarrow> handleStartDownload_catch d e s)
      | CancelDownloadCb d \<Rightarrow>
          (let (s1, r) = handleCancelDownload_resume d out s
           in emit (SendResponse (reply_of r)) s1)
      | SelectDirectoryCb \<Rightarrow> emit (SendResponse (reply_of (handleSelectDirectory_resume out))) s
      | OpenFolderCb \<Rightarrow> emit (SendResponse (reply_of (handleOpenFolder_resume out))) s)"

fun run_microtask :: "microtask \<Rightarrow> state \<Rightarrow> state" where
  "run_microtask (Continue cb out) s = continue cb out s"
| "run_microtask (Reply r) s = emit (SendResponse r) s"

definition drain :: "state \<Rightarrow> state" where
  "drain s = foldl (\<lambda>t m. run_microtask m t) (s\<lparr>microtasks := []\<rparr>) (microtasks s)"

subsection \<open>Browser events\<close>

datatype event =
    Request request browser
  | NativeMessage message
  | NativeDisconnect
  | TimerFired nat
  | KeepAlive

text \<open>
  One turn of the event loop. The port's listeners exist only while a port does, a timer
  fires once, and the interval callback only logs.
\<close>

definition dispatch :: "event \<Rightarrow> state \<Rightarrow> state" where
  "dispatch ev s =
     (case ev of
        Request req b \<Rightarrow> handleRequest req b s
      | NativeMessage m \<Rightarrow> (if nativePort s = None then s else handleNativeMessage m s)
      | NativeDisconnect \<Rightarrow> (if nativePort s = None then s else onDisconnect s)
      | TimerFired i \<Rightarrow>
          (case find (\<lambda>t. timer_id t = i) (timers s) of
             None \<Rightarrow> s
           | Some t \<Rightarrow> timeoutFired t (s\<lparr>timers := remove1 t (timers s)\<rparr>))
      | KeepAlive \<Rightarrow> s)"

definition step :: "event \<Rightarrow> state \<Rightarrow> state" where
  "step ev s = drain (dispatch ev s)"

text \<open>Loading the script: the last statement of the file connects to the host.\<close>

definition startup :: "connect_outcome \<Rightarrow> state" where
  "startup conn = drain (fst (connectToNativeHost conn initial_state))"

fun run :: "event list \<Rightarrow> state \<Rightarrow> state" where
  "run [] s = s"
| "run (ev # evs) s = run evs (step ev s)"

subsection \<open>Notions used in the statements\<close>

text \<open>What a listener has added to the trace, between a state and a later one.\<close>

definition emitted :: "state \<Rightarrow> state \<Rightarrow> effect list" where
  "emitted s s' = drop (length (trace s)) (trace s')"

text \<open>The correlation identifier of the call an effect settles, if it settles one.\<close>

fun settled_id :: "effect \<Rightarrow> nat option" where
  "settled_id (Settle i out) = i"
| "settled_id e = None"

definition settled_ids :: "effect list \<Rightarrow> nat list" where
  "settled_ids tr = List.map_filter settled_id tr"

text \<open>A call is resolved with a message only under the identifier the message carries.\<close>

fun own_response :: "effect \<Rightarrow> bool" where
  "own_response (Settle i (Resolved m)) = (i \<noteq> None \<and> msg_id m = i)"
| "own_response e = True"

fun is_download :: "callback \<Rightarrow> bool" where
  "is_download (StartDownloadCb d) = True"
| "is_download cb = False"

text \<open>
  What holds of the tables in every state the worker reaches: identifiers in use are at
  most \<open>messageId\<close>, no identifier is both settled and pending or settled twice, and no
  timer is armed for a download call.
\<close>

definition wf_tables :: "state \<Rightarrow> bool" where
  "wf_tables s \<longleftrightarrow>
     distinct (map fst (pendingCallbacks s)) \<and>
     (\<forall>i \<in> set (map fst (pendingCallbacks s)). i \<le> messageId s) \<and>
     distinct (settled_ids (trace s)) \<and>
     (\<forall>i \<in> set (settled_ids (trace s)). i \<le> messageId s \<and> \<not> has i (pendingCallbacks s)) \<and>
     list_all own_response (trace s) \<and>
     (\<forall>t \<in> set (timers s). timer_id t \<le> messageId s) \<and>
     (\<forall>(i, cb) \<in> set (pendingCallbacks s). is_download cb \<longrightarrow> i \<notin> set (map timer_id (timers s))) \<and>
     distinct (map fst (downloadCallbacks s))"

definition quiescent :: "state \<Rightarrow> bool" where
  "quiescent s \<longleftrightarrow> wf_tables s \<and> microtasks s = []"

text \<open>
  The error events for job \<open>d\<close> among some effects (the \<open>downloadError\<close> messages sent
  to the popup), and the download calls of job \<open>d\<close> in a table of pending calls.
\<close>

fun is_job_error :: "string \<Rightarrow> effect \<Rightarrow> bool" where
  "is_job_error d (RuntimeSendMessage (DownloadError d' r)) = (d' = d)"
| "is_job_error d e = False"

definition job_errors :: "string \<Rightarrow> effect list \<Rightarrow> effect list" where
  "job_errors d es = filter (is_job_error d) es"

definition download_calls :: "string \<Rightarrow> (nat \<times> callback) list \<Rightarrow> (nat \<times> callback) list" where
  "download_calls d al = filter (\<lambda>(i, cb). cb = StartDownloadCb d) al"

text \<open>The number of calls of \<open>chrome.runtime.connectNative\<close> made so far.\<close>

definition connects :: "state \<Rightarrow> nat" where
  "connects s = count_list (trace s) ConnectNative"

text \<open>The requests that talk to the native host.\<close>

fun uses_host :: "request \<Rightarrow> bool" where
  "uses_host (OpenPopup info) = False"
| "uses_host UnknownAction = False"
| "uses_host req = True"

text \<open>
  The events that can end a pending call with identifier \<open>i\<close> from outside: a message
  that carries \<open>i\<close>, and a disconnect.
\<close>

fun can_end :: "nat \<Rightarrow> event \<Rightarrow> bool" where
  "can_end i (NativeMessage m) = (msg_id m = Some i)"
| "can_end i NativeDisconnect = True"
| "can_end i ev = False"

subsection \<open>Example inputs\<close>

definition empty_message :: message where
  "empty_message = \<lparr> msg_id = None, msg_type = None, msg_downloadId = None, msg_error = None,
     msg_progress = None, msg_filename = None, msg_ytdlpVersion = None,
     msg_ffmpegVersion = None, msg_path = None \<rparr>"

definition response_to :: "nat \<Rightarrow> message" where
  "response_to i = empty_message\<lparr>msg_id := Some i\<rparr>"

definition progress_J1 :: message where
  "progress_J1 = empty_message\<lparr>msg_type := Some ''progress'', msg_downloadId := Some ''J1'',
     msg_progress := Some ''50''\<rparr>"

definition no_options :: options where
  "no_options = \<lparr> url = None, format = None, output_path = None, extension = None,
     subtitles = None, audioOnly = None, audioQuality = None, title = None \<rparr>"

definition video_options :: options where
  "video_options = no_options\<lparr>url := Some ''https://example.org/v'', title := Some ''clip''\<rparr>"

definition browser_ok :: browser where
  "browser_ok = \<lparr> connectNative_result = ConnectOk 1, postMessage_result = PostOk,
     generated_downloadId = ''J1'' \<rparr>"

definition browser_no_host :: browser where
  "browser_no_host = browser_ok\<lparr>connectNative_result := ConnectThrows ''no host''\<rparr>"

definition browser_post_fails :: browser where
  "browser_post_fails = browser_ok\<lparr>postMessage_result := PostThrows ''port closed''\<rparr>"

section \<open>Basic facts\<close>

lemmas prim_defs =
  emit_def settle_def enqueue_def delete_download_def
  notifyDownloadProgress_def notifyDownloadComplete_def notifyDownloadError_def

lemmas handler_defs =
  handleRequest_def handleTestConnection_def handleStartDownload_def handleCancelDownload_def
  handleSelectDirectory_def handleOpenFolder_def sendNativeMessage_def connectToNativeHost_def
  handleNativeMessage_def pending_entry_def job_event_def onDisconnect_def timeoutFired_def
  continue_def reply_of_def handleTestConnection_resume_def handleCancelDownload_resume_def
  handleSelectDirectory_resume_def handleOpenFolder_resume_def handleStartDownload_catch_def

lemmas loop_defs = step_def dispatch_def drain_def startup_def initial_state_def

lemmas example_defs =
  empty_message_def response_to_def progress_J1_def no_options_def video_options_def
  browser_ok_def browser_no_host_def browser_post_fails_def

lemma has_iff: "has k al \<longleftrightarrow> k \<in> set (map fst al)"
  by (simp add: has_def map_of_eq_None_iff)

lemma settled_ids_Nil [simp]: "settled_ids [] = []"
  by (simp add: settled_ids_def)

lemma settled_ids_append [simp]: "settled_ids (xs @ ys) = settled_ids xs @ settled_ids ys"
  by (simp add: settled_ids_def map_filter_def)

lemma settled_ids_Cons [simp]:
  "settled_ids (e # tr) = (case settled_id e of None \<Rightarrow> [] | Some i \<Rightarrow> [i]) @ settled_ids tr"
  by (simp add: settled_ids_def split: option.split)

lemma settled_ids_single [simp]:
  "settled_ids [e] = (case settled_id e of None \<Rightarrow> [] | Some i \<Rightarrow> [i])"
  by (simp add: settled_ids_Cons)

lemma emitted_self [simp]: "emitted s s = []"
  by (simp add: emitted_def)

subsection \<open>The two loops of the disconnect listener\<close>

lemma foldl_reject_all:
  "foldl (\<lambda>t (i, cb). settle (Some i) cb (Rejected e) t) s al =
     s\<lparr>trace := trace s @ map (\<lambda>(i, cb). Settle (Some i) (Rejected e)) al,
       microtasks := microtasks s @ map (\<lambda>(i, cb). Continue cb (Rejected e)) al\<rparr>"
  by (induction al arbitrary: s) (auto simp: settle_def)

lemma foldl_notify_all:
  "foldl (\<lambda>t (d, b). notifyDownloadError d e t) s al =
     s\<lparr>trace := trace s @
        concat (map (\<lambda>(d, b). [RuntimeSendMessage (DownloadError d e),
             NotificationCreate ''Download Failed''
               (case e of
                  Some x \<Rightarrow> if truthy_str e then x else ''An error occurred during download.''
                | None \<Rightarrow> ''An error occurred during download.'') 2]) al)\<rparr>"
  by (induction al arbitrary: s) (auto simp: notifyDownloadError_def emit_def)

lemma onDisconnect_eq:
  "onDisconnect s =
     s\<lparr>nativePort := None, pendingCallbacks := [], downloadCallbacks := [],
       microtasks := microtasks s @
         map (\<lambda>(i, cb). Continue cb (Rejected ''Native host disconnected'')) (pendingCallbacks s),
       trace := trace s @
         map (\<lambda>(i, cb). Settle (Some i) (Rejected ''Native host disconnected'')) (pendingCallbacks s) @
         concat (map (\<lambda>(d, b). [RuntimeSendMessage (DownloadError d (Some ''Native host connection lost'')),
             NotificationCreate ''Download Failed'' ''Native host connection lost'' 2])
           (downloadCallbacks s))\<rparr>"
  by (simp add: onDisconnect_def Let_def foldl_reject_all foldl_notify_all truthy_str_def)

subsection \<open>Connection attempts\<close>

lemma connects_emit: "connects (emit e s) = connects s + (if e = ConnectNative then 1 else 0)"
  by (simp add: connects_def emit_def)

lemma connects_continue: "connects (continue cb out s) = connects s"
  by (cases cb; cases out)
    (simp_all add: continue_def handleCancelDownload_resume_def handleStartDownload_catch_def
      prim_defs connects_def)

lemma connects_run_microtask: "connects (run_microtask m s) = connects s"
  by (cases m) (simp_all add: connects_continue connects_emit)

lemma connects_microtasks:
  "connects (foldl (\<lambda>t m. run_microtask m t) s ms) = connects s"
  by (induction ms arbitrary: s) (simp_all add: connects_run_microtask)

lemma connects_drain: "connects (drain s) = connects s"
  by (simp add: drain_def connects_microtasks) (simp add: connects_def)

lemma connects_sendNativeMessage:
  "connects (sendNativeMessage conn post a dat cb s) =
     connects s + (if nativePort s = None then 1 else 0)"
  by (simp add: sendNativeMessage_def connectToNativeHost_def prim_defs connects_def Let_def
      split: connect_outcome.split post_outcome.split)

lemma connects_handleNativeMessage: "connects (handleNativeMessage m s) = connects s"
  by (simp add: handleNativeMessage_def prim_defs connects_def Let_def
      split: option.split prod.split)

lemma connects_onDisconnect: "connects (onDisconnect s) = connects s"
proof -
  have settles: "count_list (map (\<lambda>(i, cb). Settle (Some i) (Rejected e)) al) ConnectNative = 0"
    for e and al :: "(nat \<times> callback) list"
    by (induction al) auto
  have errors: "count_list (concat (map (\<lambda>(d, b). [RuntimeSendMessage (f d),
      NotificationCreate x y z]) al)) ConnectNative = 0"
    for f x y z and al :: "(string \<times> bool) list"
    by (induction al) auto
  show ?thesis
    by (simp add: onDisconnect_eq connects_def settles errors)
qed

lemma connects_timeoutFired: "connects (timeoutFired t s) = connects s"
  by (cases t) (simp add: timeoutFired_def settle_def connects_def)

lemma connects_enqueue: "connects (enqueue m s) = connects s"
  by (simp add: connects_def enqueue_def)

lemma connects_jobs: "connects (s\<lparr>downloadCallbacks := al\<rparr>) = connects s"
  by (simp add: connects_def)

lemma connects_handleRequest:
  "connects (handleRequest req b s) =
     connects s + (if uses_host req \<and> nativePort s = None then 1 else 0)"
  by (cases req)
    (simp_all add: handleRequest_def handleTestConnection_def handleStartDownload_def
      handleCancelDownload_def handleSelectDirectory_def handleOpenFolder_def
      connects_sendNativeMessage connects_emit connects_enqueue connects_jobs Let_def
      split: option.split)

subsection \<open>The invariant of the tables\<close>

lemma has_update [simp]: "has k (AList.update j v al) \<longleftrightarrow> k = j \<or> has k al"
  by (auto simp: has_iff dom_update)

lemma has_delete [simp]: "has k (AList.delete j al) \<longleftrightarrow> k \<noteq> j \<and> has k al"
  by (auto simp: has_iff delete_keys)

lemma in_delete: "(k, v) \<in> set (AList.delete j al) \<longleftrightarrow> k \<noteq> j \<and> (k, v) \<in> set al"
  by (auto simp: AList.delete_eq)

lemma in_update_fresh:
  "\<not> has j al \<Longrightarrow> (k, v) \<in> set (AList.update j w al) \<longleftrightarrow> (k = j \<and> v = w) \<or> (k, v) \<in> set al"
  by (induction al) (auto simp: has_iff)

lemma has_entry: "has k al \<longleftrightarrow> (\<exists>v. (k, v) \<in> set al)"
  by (force simp: has_iff)

lemma wf_tablesI:
  assumes "distinct (map fst (pendingCallbacks s))"
    and "\<And>i cb. (i, cb) \<in> set (pendingCallbacks s) \<Longrightarrow> i \<le> messageId s"
    and "distinct (settled_ids (trace s))"
    and "\<And>i. i \<in> set (settled_ids (trace s)) \<Longrightarrow> i \<le> messageId s"
    and "\<And>i cb. i \<in> set (settled_ids (trace s)) \<Longrightarrow> (i, cb) \<notin> set (pendingCallbacks s)"
    and "list_all own_response (trace s)"
    and "\<And>t. t \<in> set (timers s) \<Longrightarrow> timer_id t \<le> messageId s"
    and "\<And>i cb t. (i, cb) \<in> set (pendingCallbacks s) \<Longrightarrow> is_download cb \<Longrightarrow>
           t \<in> set (timers s) \<Longrightarrow> timer_id t \<noteq> i"
    and "distinct (map fst (downloadCallbacks s))"
  shows "wf_tables s"
proof -
  have keys: "\<forall>i \<in> set (map fst (pendingCallbacks s)). i \<le> messageId s"
    using assms(2) by auto
  have settled: "\<forall>i \<in> set (settled_ids (trace s)). i \<le> messageId s \<and> \<not> has i (pendingCallbacks s)"
    using assms(4,5) by (auto simp: has_entry)
  have armed: "\<forall>t \<in> set (timers s). timer_id t \<le> messageId s"
    using assms(7) by auto
  have unarmed: "\<forall>(i, cb) \<in> set (pendingCallbacks s).
      is_download cb \<longrightarrow> i \<notin> set (map timer_id (timers s))"
    using assms(8) by auto
  from assms(1,3,6,9) keys settled armed unarmed show ?thesis
    unfolding wf_tables_def by blast
qed

lemma wf_keys_distinct: "wf_tables s \<Longrightarrow> distinct (map fst (pendingCallbacks s))"
  by (simp add: wf_tables_def)

lemma wf_keys_le: "wf_tables s \<Longrightarrow> (i, cb) \<in> set (pendingCallbacks s) \<Longrightarrow> i \<le> messageId s"
  unfolding wf_tables_def by (metis fst_conv image_eqI set_map)

lemma wf_settled_distinct: "wf_tables s \<Longrightarrow> distinct (settled_ids (trace s))"
  by (simp add: wf_tables_def)

lemma wf_settled_le: "wf_tables s \<Longrightarrow> i \<in> set (settled_ids (trace s)) \<Longrightarrow> i \<le> messageId s"
  by (simp add: wf_tables_def)

lemma wf_settled_not_pending:
  "wf_tables s \<Longrightarrow> i \<in> set (settled_ids (trace s)) \<Longrightarrow> (i, cb) \<notin> set (pendingCallbacks s)"
  unfolding wf_tables_def has_entry by blast

lemma wf_responses: "wf_tables s \<Longrightarrow> list_all own_response (trace s)"
  by (simp add: wf_tables_def)

lemma wf_timers_le: "wf_tables s \<Longrightarrow> t \<in> set (timers s) \<Longrightarrow> timer_id t \<le> messageId s"
  by (simp add: wf_tables_def)

lemma wf_unarmed:
  "wf_tables s \<Longrightarrow> (i, cb) \<in> set (pendingCallbacks s) \<Longrightarrow> is_download cb \<Longrightarrow>
     t \<in> set (timers s) \<Longrightarrow> timer_id t \<noteq> i"
proof -
  assume wf: "wf_tables s" and entry: "(i, cb) \<in> set (pendingCallbacks s)" "is_download cb"
    and t: "t \<in> set (timers s)"
  from wf have "\<forall>(i, cb) \<in> set (pendingCallbacks s).
      is_download cb \<longrightarrow> i \<notin> set (map timer_id (timers s))"
    by (simp add: wf_tables_def)
  with entry have "i \<notin> set (map timer_id (timers s))"
    by blast
  with t show ?thesis
    by auto
qed

lemma wf_jobs_distinct: "wf_tables s \<Longrightarrow> distinct (map fst (downloadCallbacks s))"
  by (simp add: wf_tables_def)

lemmas wf_tablesD =
  wf_keys_distinct wf_keys_le wf_settled_distinct wf_settled_le wf_settled_not_pending
  wf_responses wf_timers_le wf_unarmed wf_jobs_distinct


lemma wf_tables_emit:
  "settled_id e = None \<Longrightarrow> own_response e \<Longrightarrow> wf_tables (emit e s) = wf_tables s"
  by (simp add: wf_tables_def emit_def)

lemma wf_tables_enqueue: "wf_tables (enqueue m s) = wf_tables s"
  by (simp add: wf_tables_def enqueue_def)

lemma wf_tables_microtasks: "wf_tables (s\<lparr>microtasks := ms\<rparr>) = wf_tables s"
  by (simp add: wf_tables_def)

lemma wf_tables_nativePort: "wf_tables (s\<lparr>nativePort := p\<rparr>) = wf_tables s"
  by (simp add: wf_tables_def)

lemma wf_tables_notify:
  "wf_tables (notifyDownloadProgress d p s) = wf_tables s"
  "wf_tables (notifyDownloadComplete d f s) = wf_tables s"
  "wf_tables (notifyDownloadError d e s) = wf_tables s"
  by (simp_all add: notifyDownloadProgress_def notifyDownloadComplete_def
      notifyDownloadError_def wf_tables_emit)

lemma wf_tables_delete_download: "wf_tables s \<Longrightarrow> wf_tables (delete_download d s)"
  by (simp add: wf_tables_def delete_download_def distinct_delete)

lemma wf_tables_register:
  "wf_tables s \<Longrightarrow> wf_tables (s\<lparr>downloadCallbacks := AList.update d b (downloadCallbacks s)\<rparr>)"
  by (simp add: wf_tables_def distinct_update)

lemma wf_tables_reject_unsent: "wf_tables (settle None cb (Rejected e) s) = wf_tables s"
  by (simp add: wf_tables_def settle_def)

lemma wf_tables_settle:
  assumes wf: "wf_tables s" and pending: "(i, cb') \<in> set (pendingCallbacks s)"
    and own: "own_response (Settle (Some i) out)"
  shows "wf_tables (settle (Some i) cb out (s\<lparr>pendingCallbacks := AList.delete i (pendingCallbacks s)\<rparr>))"
proof (rule wf_tablesI)
  let ?s' = "settle (Some i) cb out (s\<lparr>pendingCallbacks := AList.delete i (pendingCallbacks s)\<rparr>)"
  have fields: "pendingCallbacks ?s' = AList.delete i (pendingCallbacks s)"
    "messageId ?s' = messageId s" "timers ?s' = timers s"
    "downloadCallbacks ?s' = downloadCallbacks s"
    "trace ?s' = trace s @ [Settle (Some i) out]"
    by (simp_all add: settle_def)
  from wf pending have fresh: "i \<notin> set (settled_ids (trace s))"
    using wf_settled_not_pending by blast
  show "distinct (map fst (pendingCallbacks ?s'))"
    using wf by (simp add: fields distinct_delete wf_keys_distinct)
  show "j \<le> messageId ?s'" if "(j, c) \<in> set (pendingCallbacks ?s')" for j c
    using that wf by (auto simp: fields in_delete dest: wf_keys_le)
  show "distinct (settled_ids (trace ?s'))"
    using wf fresh by (simp add: fields wf_settled_distinct)
  show "j \<le> messageId ?s'" if "j \<in> set (settled_ids (trace ?s'))" for j
    using that wf pending by (auto simp: fields dest: wf_settled_le wf_keys_le)
  show "(j, c) \<notin> set (pendingCallbacks ?s')" if "j \<in> set (settled_ids (trace ?s'))" for j c
    using that wf by (auto simp: fields in_delete dest: wf_settled_not_pending)
  show "list_all own_response (trace ?s')"
    using wf own by (simp add: fields wf_responses)
  show "timer_id t \<le> messageId ?s'" if "t \<in> set (timers ?s')" for t
    using that wf by (simp add: fields wf_timers_le)
  show "timer_id t \<noteq> j"
    if "(j, c) \<in> set (pendingCallbacks ?s')" "is_download c" "t \<in> set (timers ?s')" for j c t
    using that wf by (auto simp: fields in_delete dest: wf_unarmed)
  show "distinct (map fst (downloadCallbacks ?s'))"
    using wf by (simp add: fields wf_jobs_distinct)
qed

lemma wf_tables_disarm:
  assumes wf: "wf_tables s"
  shows "wf_tables (s\<lparr>timers := remove1 t (timers s)\<rparr>)"
proof (rule wf_tablesI)
  let ?s' = "s\<lparr>timers := remove1 t (timers s)\<rparr>"
  have sub: "u \<in> set (timers s)" if "u \<in> set (timers ?s')" for u
    using that set_remove1_subset [of t "timers s"] by auto
  show "timer_id u \<le> messageId ?s'" if "u \<in> set (timers ?s')" for u
    using sub [OF that] wf by (simp add: wf_timers_le)
  show "timer_id u \<noteq> j"
    if "(j, c) \<in> set (pendingCallbacks ?s')" "is_download c" "u \<in> set (timers ?s')" for j c u
    using sub [OF that(3)] that(1,2) wf wf_unarmed [of s j c u] by simp
qed (use wf in \<open>auto dest: wf_tablesD\<close>)

lemma wf_tables_allocate:
  assumes wf: "wf_tables s" and i: "i = messageId s + 1"
  shows "wf_tables (s\<lparr>messageId := i, pendingCallbacks := AList.update i cb (pendingCallbacks s)\<rparr>)"
proof (rule wf_tablesI)
  let ?s' = "s\<lparr>messageId := i, pendingCallbacks := AList.update i cb (pendingCallbacks s)\<rparr>"
  from wf i have fresh: "\<not> has i (pendingCallbacks s)"
    by (auto simp: has_entry dest: wf_keys_le)
  have entries: "(j, c) \<in> set (pendingCallbacks ?s') \<longleftrightarrow>
      (j = i \<and> c = cb) \<or> (j, c) \<in> set (pendingCallbacks s)" for j c
    using fresh by (simp add: in_update_fresh)
  show "distinct (map fst (pendingCallbacks ?s'))"
    using wf by (simp add: distinct_update wf_keys_distinct)
  show "j \<le> messageId ?s'" if "(j, c) \<in> set (pendingCallbacks ?s')" for j c
    using that wf i unfolding entries by (auto dest: wf_keys_le)
  show "distinct (settled_ids (trace ?s'))"
    using wf by (simp add: wf_settled_distinct)
  show "j \<le> messageId ?s'" if "j \<in> set (settled_ids (trace ?s'))" for j
    using that wf i by (auto dest: wf_settled_le)
  show "(j, c) \<notin> set (pendingCallbacks ?s')" if "j \<in> set (settled_ids (trace ?s'))" for j c
    using that wf i unfolding entries by (auto dest: wf_settled_not_pending wf_settled_le)
  show "list_all own_response (trace ?s')"
    using wf by (simp add: wf_responses)
  show "timer_id t \<le> messageId ?s'" if "t \<in> set (timers ?s')" for t
    using that wf i by (auto dest: wf_timers_le)
  show "timer_id t \<noteq> j"
    if "(j, c) \<in> set (pendingCallbacks ?s')" "is_download c" "t \<in> set (timers ?s')" for j c t
    using that wf i unfolding entries by (auto dest: wf_unarmed wf_timers_le)
  show "distinct (map fst (downloadCallbacks ?s'))"
    using wf by (simp add: wf_jobs_distinct)
qed

lemma wf_tables_arm:
  assumes wf: "wf_tables s" and entry: "map_of (pendingCallbacks s) i = Some cb"
    and cb: "\<not> is_download cb" and i: "i \<le> messageId s"
  shows "wf_tables (s\<lparr>timers := timers s @ [Timer i cb]\<rparr>)"
proof (rule wf_tablesI)
  let ?s' = "s\<lparr>timers := timers s @ [Timer i cb]\<rparr>"
  have same: "c = cb" if "(i, c) \<in> set (pendingCallbacks s)" for c
    using that entry wf_keys_distinct [OF wf] by simp
  show "timer_id t \<le> messageId ?s'" if "t \<in> set (timers ?s')" for t
    using that wf i by (auto dest: wf_timers_le)
  show "timer_id t \<noteq> j"
    if "(j, c) \<in> set (pendingCallbacks ?s')" "is_download c" "t \<in> set (timers ?s')" for j c t
    using that wf cb same by (auto dest: wf_unarmed)
qed (use wf in \<open>auto dest: wf_tablesD\<close>)


lemma wf_tables_connect: "wf_tables (fst (connectToNativeHost conn s)) = wf_tables s"
  by (cases conn)
    (simp_all add: connectToNativeHost_def wf_tables_emit wf_tables_nativePort Let_def
      split: option.split)

lemma wf_tables_sendNativeMessage:
  assumes wf: "wf_tables s" and kind: "is_download cb \<longrightarrow> action = ''download''"
  shows "wf_tables (sendNativeMessage conn post action dat cb s)"
proof -
  let ?s1 = "if nativePort s = None then fst (connectToNativeHost conn s) else s"
  let ?ok = "if nativePort s = None then snd (connectToNativeHost conn s) else True"
  let ?i = "messageId ?s1 + 1"
  let ?s3 = "?s1\<lparr>messageId := ?i, pendingCallbacks := AList.update ?i cb (pendingCallbacks ?s1)\<rparr>"
  let ?s4 = "if action \<noteq> ''download''
      then emit (SetTimeout ?i 30000) (?s3\<lparr>timers := timers ?s3 @ [Timer ?i cb]\<rparr>) else ?s3"
  have wf1: "wf_tables ?s1"
    using wf by (simp add: wf_tables_connect)
  have wf3: "wf_tables ?s3"
    using wf1 by (rule wf_tables_allocate) simp
  have entry3: "map_of (pendingCallbacks ?s3) ?i = Some cb" and id3: "?i \<le> messageId ?s3"
    by (simp_all add: update_conv')
  have wf4: "wf_tables ?s4"
  proof (cases "action = ''download''")
    case True
    with wf3 show ?thesis by simp
  next
    case False
    with kind have "\<not> is_download cb" by blast
    with wf3 entry3 have "wf_tables (?s3\<lparr>timers := timers ?s3 @ [Timer ?i cb]\<rparr>)"
      using id3 by (rule wf_tables_arm)
    with False show ?thesis by (simp add: wf_tables_emit)
  qed
  have entry4: "(?i, cb) \<in> set (pendingCallbacks ?s4)"
    using map_of_SomeD [OF entry3] by (simp add: emit_def)
  have unfold: "sendNativeMessage conn post action dat cb s =
      (if \<not> ?ok
       then settle None cb
              (Rejected ''Failed to connect to native host. Please check installation.'') ?s1
       else case post of
              PostOk \<Rightarrow> emit (PostMessage \<lparr>req_id = ?i, req_action = action, req_data = dat\<rparr>) ?s4
            | PostThrows e \<Rightarrow>
                settle (Some ?i) cb (Rejected e)
                  (?s4\<lparr>pendingCallbacks := AList.delete ?i (pendingCallbacks ?s4)\<rparr>))"
    by (cases post; cases "connectToNativeHost conn s")
      (simp_all add: sendNativeMessage_def Let_def)
  show ?thesis
  proof (cases post)
    case PostOk
    with wf1 wf4 show ?thesis
      unfolding unfold by (simp add: wf_tables_reject_unsent wf_tables_emit)
  next
    case (PostThrows e)
    have "wf_tables (settle (Some ?i) cb (Rejected e)
        (?s4\<lparr>pendingCallbacks := AList.delete ?i (pendingCallbacks ?s4)\<rparr>))"
      using wf4 entry4 by (rule wf_tables_settle) simp
    with PostThrows wf1 show ?thesis
      unfolding unfold by (simp add: wf_tables_reject_unsent)
  qed
qed

lemma wf_tables_handleNativeMessage:
  assumes wf: "wf_tables s"
  shows "wf_tables (handleNativeMessage m s)"
proof (cases "pending_entry m s")
  case None
  then show ?thesis
    using wf
    by (simp add: handleNativeMessage_def Let_def wf_tables_notify wf_tables_delete_download
        split: option.split)
next
  case (Some a)
  obtain i cb where a: "a = (i, cb)" by (cases a)
  from Some a have i: "msg_id m = Some i" and entry: "(i, cb) \<in> set (pendingCallbacks s)"
    by (auto simp: pending_entry_def split: option.splits if_splits dest: map_of_SomeD)
  have "wf_tables (settle (Some i) cb out
      (s\<lparr>pendingCallbacks := AList.delete i (pendingCallbacks s)\<rparr>))"
    if "own_response (Settle (Some i) out)" for out
    using wf entry that by (rule wf_tables_settle)
  with Some a i show ?thesis
    by (simp add: handleNativeMessage_def Let_def truthy_str_def split: option.split)
qed

lemma settled_ids_rejections:
  "settled_ids (map (\<lambda>(i, cb). Settle (Some i) out) al) = map fst al"
  by (induction al) (auto simp: settled_ids_Cons)

lemma settled_ids_errors:
  "settled_ids (concat (map (\<lambda>(d, b). [RuntimeSendMessage (f d), NotificationCreate x y z]) al)) = []"
  by (induction al) (auto simp: settled_ids_Cons)

lemma own_response_rejections:
  "list_all own_response (map (\<lambda>(i, cb). Settle (Some i) (Rejected e)) al)"
  by (induction al) auto

lemma own_response_errors:
  "list_all own_response
     (concat (map (\<lambda>(d, b). [RuntimeSendMessage (f d), NotificationCreate x y z]) al))"
  by (induction al) auto

lemma wf_tables_onDisconnect:
  assumes wf: "wf_tables s"
  shows "wf_tables (onDisconnect s)"
proof (rule wf_tablesI)
  have settled: "settled_ids (trace (onDisconnect s)) =
      settled_ids (trace s) @ map fst (pendingCallbacks s)"
    by (simp add: onDisconnect_eq settled_ids_rejections settled_ids_errors)
  have disjoint: "set (settled_ids (trace s)) \<inter> set (map fst (pendingCallbacks s)) = {}"
    using wf by (auto dest: wf_settled_not_pending)
  show "distinct (settled_ids (trace (onDisconnect s)))"
    using wf disjoint by (simp add: settled wf_settled_distinct wf_keys_distinct)
  show "j \<le> messageId (onDisconnect s)" if "j \<in> set (settled_ids (trace (onDisconnect s)))" for j
    using that wf unfolding settled by (auto simp: onDisconnect_eq dest: wf_settled_le wf_keys_le)
  show "list_all own_response (trace (onDisconnect s))"
    using wf by (simp add: onDisconnect_eq own_response_rejections own_response_errors wf_responses)
  show "timer_id t \<le> messageId (onDisconnect s)" if "t \<in> set (timers (onDisconnect s))" for t
    using that wf by (simp add: onDisconnect_eq wf_timers_le)
qed (simp_all add: onDisconnect_eq)

lemma wf_tables_timeoutFired:
  assumes wf: "wf_tables s"
  shows "wf_tables (timeoutFired t s)"
proof (cases t)
  case (Timer i cb)
  show ?thesis
  proof (cases "has i (pendingCallbacks s)")
    case True
    then obtain cb' where "(i, cb') \<in> set (pendingCallbacks s)"
      by (auto simp: has_entry)
    with wf have "wf_tables (settle (Some i) cb (Rejected ''Request timed out'')
        (s\<lparr>pendingCallbacks := AList.delete i (pendingCallbacks s)\<rparr>))"
      by (rule wf_tables_settle) simp
    with Timer True show ?thesis by (simp add: timeoutFired_def)
  next
    case False
    with Timer wf show ?thesis by (simp add: timeoutFired_def)
  qed
qed

lemma wf_tables_continue: "wf_tables s \<Longrightarrow> wf_tables (continue cb out s)"
  by (cases cb; cases out)
    (simp_all add: continue_def handleCancelDownload_resume_def handleStartDownload_catch_def
      wf_tables_emit wf_tables_notify wf_tables_delete_download)

lemma microtasks_continue: "microtasks (continue cb out s) = microtasks s"
  by (cases cb; cases out)
    (simp_all add: continue_def handleCancelDownload_resume_def handleStartDownload_catch_def
      prim_defs)

lemma wf_tables_run_microtask: "wf_tables s \<Longrightarrow> wf_tables (run_microtask m s)"
  by (cases m) (simp_all add: wf_tables_continue wf_tables_emit)

lemma microtasks_run_microtask: "microtasks (run_microtask m s) = microtasks s"
  by (cases m) (simp_all add: microtasks_continue emit_def)

lemma wf_microtasks_fold:
  "quiescent s \<Longrightarrow> quiescent (foldl (\<lambda>t m. run_microtask m t) s ms)"
  by (induction ms arbitrary: s)
    (simp_all add: quiescent_def wf_tables_run_microtask microtasks_run_microtask)

lemma wf_drain: "wf_tables s \<Longrightarrow> quiescent (drain s)"
  unfolding drain_def
  by (rule wf_microtasks_fold) (simp add: quiescent_def wf_tables_microtasks)

lemma wf_tables_handleRequest:
  assumes wf: "wf_tables s"
  shows "wf_tables (handleRequest req b s)"
proof (cases req)
  case (StartDownload opts)
  have "wf_tables (s\<lparr>downloadCallbacks := AList.update d True (downloadCallbacks s)\<rparr>)" for d
    using wf by (rule wf_tables_register)
  then show ?thesis
    using StartDownload
    by (simp add: handleRequest_def handleStartDownload_def Let_def wf_tables_enqueue
        wf_tables_emit wf_tables_sendNativeMessage)
qed (use wf in \<open>simp_all add: handleRequest_def handleTestConnection_def handleCancelDownload_def
      handleSelectDirectory_def handleOpenFolder_def wf_tables_sendNativeMessage
      wf_tables_enqueue wf_tables_emit split: option.split\<close>)

lemma wf_tables_dispatch: "wf_tables s \<Longrightarrow> wf_tables (dispatch ev s)"
  by (cases ev)
    (simp_all add: dispatch_def wf_tables_handleRequest wf_tables_handleNativeMessage
      wf_tables_onDisconnect wf_tables_timeoutFired wf_tables_disarm split: option.split)

lemma wf_step: "quiescent s \<Longrightarrow> quiescent (step ev s)"
  by (simp add: step_def quiescent_def wf_drain [unfolded quiescent_def] wf_tables_dispatch)

lemma wf_startup: "quiescent (startup conn)"
proof -
  have "wf_tables initial_state"
    by (simp add: wf_tables_def initial_state_def)
  then show ?thesis
    by (simp add: startup_def wf_drain wf_tables_connect)
qed

lemma wf_run: "quiescent s \<Longrightarrow> quiescent (run evs s)"
  by (induction evs arbitrary: s) (simp_all add: wf_step)

lemmas eval_defs =
  prim_defs handler_defs loop_defs example_defs truthy_num_def truthy_str_def template_def
  has_iff emitted_def connects_def

section \<open>Late and unregistered job events\<close>

text \<open>
  C1, as the code has it. \<open>handleNativeMessage\<close> never reads \<open>downloadCallbacks\<close>: a
  job event whose \<open>downloadId\<close> is not registered leaves the job table unchanged, and
  unless the message also carries the identifier of a pending call (then it is that call's
  response) the notification of its type is delivered all the same.
\<close>

theorem unregistered_job_event_is_delivered:
  assumes "\<not> has d (downloadCallbacks s)" and "msg_downloadId m = Some d" and "d \<noteq> []"
  shows "downloadCallbacks (handleNativeMessage m s) = downloadCallbacks s \<and>
    (pending_entry m s = None \<longrightarrow>
      (msg_type m = Some ''progress'' \<longrightarrow>
         emitted s (handleNativeMessage m s) =
           [RuntimeSendMessage (DownloadProgress d (msg_progress m))]) \<and>
      (msg_type m = Some ''complete'' \<longrightarrow>
         emitted s (handleNativeMessage m s) =
           [RuntimeSendMessage (DownloadComplete d (msg_filename m)),
            NotificationCreate ''Download Complete''
              (template (msg_filename m) @ '' has been downloaded successfully.'') 2]) \<and>
      (msg_type m = Some ''error'' \<longrightarrow>
         emitted s (handleNativeMessage m s) =
           [RuntimeSendMessage (DownloadError d (msg_error m)),
            NotificationCreate ''Download Failed''
              (case msg_error m of
                 Some e \<Rightarrow> if e \<noteq> [] then e else ''An error occurred during download.''
               | None \<Rightarrow> ''An error occurred during download.'') 2]))"
proof -
  from assms(1) have absent: "AList.delete d (downloadCallbacks s) = downloadCallbacks s"
    by (simp add: has_iff)
  have tables: "downloadCallbacks (handleNativeMessage m s) = downloadCallbacks s"
    using assms(2,3) absent
    by (simp add: handleNativeMessage_def job_event_def truthy_str_def prim_defs
        split: option.split prod.split)
  have events: "pending_entry m s = None \<longrightarrow>
      (msg_type m = Some ''progress'' \<longrightarrow>
         emitted s (handleNativeMessage m s) =
           [RuntimeSendMessage (DownloadProgress d (msg_progress m))]) \<and>
      (msg_type m = Some ''complete'' \<longrightarrow>
         emitted s (handleNativeMessage m s) =
           [RuntimeSendMessage (DownloadComplete d (msg_filename m)),
            NotificationCreate ''Download Complete''
              (template (msg_filename m) @ '' has been downloaded successfully.'') 2]) \<and>
      (msg_type m = Some ''error'' \<longrightarrow>
         emitted s (handleNativeMessage m s) =
           [RuntimeSendMessage (DownloadError d (msg_error m)),
            NotificationCreate ''Download Failed''
              (case msg_error m of
                 Some e \<Rightarrow> if e \<noteq> [] then e else ''An error occurred during download.''
               | None \<Rightarrow> ''An error occurred during download.'') 2])"
    using assms(2,3)
    by (simp add: handleNativeMessage_def job_event_def truthy_str_def prim_defs emitted_def
        split: option.split)
  from tables events show ?thesis by blast
qed

theorem unregistered_job_event_is_delivered_witness:
  "\<not> has ''J1'' (downloadCallbacks (startup (ConnectOk 1))) \<and>
   msg_downloadId progress_J1 = Some ''J1'' \<and>
   pending_entry progress_J1 (startup (ConnectOk 1)) = None \<and>
   downloadCallbacks (handleNativeMessage progress_J1 (startup (ConnectOk 1))) = [] \<and>
   emitted (startup (ConnectOk 1)) (handleNativeMessage progress_J1 (startup (ConnectOk 1))) =
     [RuntimeSendMessage (DownloadProgress ''J1'' (Some ''50''))]"
  using unregistered_job_event_is_delivered [of "''J1''" "startup (ConnectOk 1)" progress_J1]
  by (simp add: eval_defs)

text \<open>
  C1, as the claim states it, fails: job \<open>J1\<close> is started, cancelled, the worker
  acknowledges the cancel call and \<open>J1\<close> is retired; the late progress event for
  \<open>J1\<close> still reaches the observer.
\<close>

theorem late_progress_counterexample:
  "\<not> has ''J1'' (downloadCallbacks
       (run [Request (StartDownload video_options) browser_ok,
             Request (CancelDownload ''J1'') browser_ok,
             NativeMessage (response_to 2)] (startup (ConnectOk 1)))) \<and>
   emitted
     (run [Request (StartDownload video_options) browser_ok,
           Request (CancelDownload ''J1'') browser_ok,
           NativeMessage (response_to 2)] (startup (ConnectOk 1)))
     (run [Request (StartDownload video_options) browser_ok,
           Request (CancelDownload ''J1'') browser_ok,
           NativeMessage (response_to 2),
           NativeMessage progress_J1] (startup (ConnectOk 1))) =
     [RuntimeSendMessage (DownloadProgress ''J1'' (Some ''50''))]"
  by (simp add: eval_defs)

section \<open>Cancelling\<close>

text \<open>
  C2, as the code has it. \<open>handleCancelDownload\<close> makes no test of its argument: for a
  \<open>downloadId\<close> that is not registered it issues the cancel call like for any other
  (with a port present and a successful write: the next identifier, a pending entry, the
  timer, the message on the port, and no rejection), and neither the call nor the reaction
  to its outcome changes the job table.
\<close>

theorem cancel_of_inactive_job_is_sent:
  assumes "\<not> has d (downloadCallbacks s)" and "nativePort s = Some p"
  shows "emitted s (handleCancelDownload conn PostOk d s) =
      [SetTimeout (messageId s + 1) 30000,
       PostMessage \<lparr>req_id = messageId s + 1, req_action = ''cancel'', req_data = CancelData d\<rparr>] \<and>
    pendingCallbacks (handleCancelDownload conn PostOk d s) =
      AList.update (messageId s + 1) (CancelDownloadCb d) (pendingCallbacks s) \<and>
    microtasks (handleCancelDownload conn PostOk d s) = microtasks s \<and>
    downloadCallbacks (handleCancelDownload conn PostOk d s) = downloadCallbacks s \<and>
    downloadCallbacks (continue (CancelDownloadCb d) out s) = downloadCallbacks s"
proof -
  from assms(1) have absent: "AList.delete d (downloadCallbacks s) = downloadCallbacks s"
    by (simp add: has_iff)
  have call: "emitted s (handleCancelDownload conn PostOk d s) =
      [SetTimeout (messageId s + 1) 30000,
       PostMessage \<lparr>req_id = messageId s + 1, req_action = ''cancel'', req_data = CancelData d\<rparr>] \<and>
    pendingCallbacks (handleCancelDownload conn PostOk d s) =
      AList.update (messageId s + 1) (CancelDownloadCb d) (pendingCallbacks s) \<and>
    microtasks (handleCancelDownload conn PostOk d s) = microtasks s \<and>
    downloadCallbacks (handleCancelDownload conn PostOk d s) = downloadCallbacks s"
    using assms(2)
    by (simp add: handleCancelDownload_def sendNativeMessage_def emit_def emitted_def)
  have reaction: "downloadCallbacks (continue (CancelDownloadCb d) out s) = downloadCallbacks s"
    using absent
    by (cases out) (simp_all add: continue_def handleCancelDownload_resume_def prim_defs)
  from call reaction show ?thesis by blast
qed

theorem cancel_of_inactive_job_is_sent_witness:
  "\<not> has ''J1'' (downloadCallbacks (startup (ConnectOk 1))) \<and>
   nativePort (startup (ConnectOk 1)) = Some 1 \<and>
   pendingCallbacks (handleCancelDownload (ConnectOk 1) PostOk ''J1'' (startup (ConnectOk 1))) =
     [(1, CancelDownloadCb ''J1'')] \<and>
   downloadCallbacks (handleCancelDownload (ConnectOk 1) PostOk ''J1'' (startup (ConnectOk 1))) = []"
  using cancel_of_inactive_job_is_sent
    [of "''J1''" "startup (ConnectOk 1)" 1 "ConnectOk 1" "Rejected ''x''"]
  by (simp add: eval_defs)

text \<open>
  C2, as the claim states it, fails: with no job registered, cancelling \<open>J1\<close> writes a
  cancel message to the port and adds a pending call, and no error is answered.
\<close>

theorem cancel_unknown_job_counterexample:
  "\<not> has ''J1'' (downloadCallbacks (startup (ConnectOk 1))) \<and>
   emitted (startup (ConnectOk 1))
     (step (Request (CancelDownload ''J1'') browser_ok) (startup (ConnectOk 1))) =
     [SetTimeout 1 30000,
      PostMessage \<lparr>req_id = 1, req_action = ''cancel'', req_data = CancelData ''J1''\<rparr>] \<and>
   pendingCallbacks (startup (ConnectOk 1)) = [] \<and>
   pendingCallbacks (step (Request (CancelDownload ''J1'') browser_ok) (startup (ConnectOk 1))) =
     [(1, CancelDownloadCb ''J1'')]"
  by (simp add: eval_defs)

text \<open>
  C3, as the code has it. The job is removed from the job table when the cancel call is
  resolved (a response with its identifier and no \<open>error\<close>); when the call is rejected,
  by a response with an \<open>error\<close>, by the timer, or for any other reason, the reaction
  leaves the job table as it is and the error is answered to the page.
\<close>

theorem cancel_retires_job_only_on_success:
  assumes "map_of (pendingCallbacks s) i = Some (CancelDownloadCb d)" and "i \<noteq> 0"
    and "nativePort s \<noteq> None" and "microtasks s = []" and "msg_id m = Some i"
  shows "(\<not> truthy_str (msg_error m) \<longrightarrow>
       \<not> has d (downloadCallbacks (step (NativeMessage m) s)) \<and>
       emitted s (step (NativeMessage m) s) =
         [Settle (Some i) (Resolved m), SendResponse Success]) \<and>
    (truthy_str (msg_error m) \<longrightarrow>
       downloadCallbacks (step (NativeMessage m) s) = downloadCallbacks s \<and>
       emitted s (step (NativeMessage m) s) =
         [Settle (Some i) (Rejected (template (msg_error m))),
          SendResponse (ErrorResponse (template (msg_error m)))]) \<and>
    (find (\<lambda>t. timer_id t = i) (timers s) = Some (Timer i (CancelDownloadCb d)) \<longrightarrow>
       downloadCallbacks (step (TimerFired i) s) = downloadCallbacks s \<and>
       emitted s (step (TimerFired i) s) =
         [Settle (Some i) (Rejected ''Request timed out''),
          SendResponse (ErrorResponse ''Request timed out'')]) \<and>
    downloadCallbacks (continue (CancelDownloadCb d) (Rejected e) s) = downloadCallbacks s"
proof -
  from assms(1,2,5) have entry: "pending_entry m s = Some (i, CancelDownloadCb d)"
    by (simp add: pending_entry_def truthy_num_def)
  from assms(1) have pending: "has i (pendingCallbacks s)"
    by (simp add: has_def)
  have resolved: "\<not> truthy_str (msg_error m) \<longrightarrow>
       \<not> has d (downloadCallbacks (step (NativeMessage m) s)) \<and>
       emitted s (step (NativeMessage m) s) =
         [Settle (Some i) (Resolved m), SendResponse Success]"
    using entry assms(3,4) delete_notin_dom [of d "downloadCallbacks s"]
    by (auto simp: step_def dispatch_def drain_def handleNativeMessage_def settle_def
        continue_def handleCancelDownload_resume_def reply_of_def emit_def delete_download_def
        emitted_def has_iff)
  have rejected: "truthy_str (msg_error m) \<longrightarrow>
       downloadCallbacks (step (NativeMessage m) s) = downloadCallbacks s \<and>
       emitted s (step (NativeMessage m) s) =
         [Settle (Some i) (Rejected (template (msg_error m))),
          SendResponse (ErrorResponse (template (msg_error m)))]"
    using entry assms(3,4)
    by (auto simp: step_def dispatch_def drain_def handleNativeMessage_def settle_def
        continue_def handleCancelDownload_resume_def reply_of_def emit_def emitted_def
        truthy_str_def template_def split: option.splits)
  have timed_out: "find (\<lambda>t. timer_id t = i) (timers s) = Some (Timer i (CancelDownloadCb d)) \<longrightarrow>
       downloadCallbacks (step (TimerFired i) s) = downloadCallbacks s \<and>
       emitted s (step (TimerFired i) s) =
         [Settle (Some i) (Rejected ''Request timed out''),
          SendResponse (ErrorResponse ''Request timed out'')]"
    using pending assms(4)
    by (simp add: step_def dispatch_def drain_def timeoutFired_def settle_def
        continue_def handleCancelDownload_resume_def reply_of_def emit_def emitted_def)
  have reaction: "downloadCallbacks (continue (CancelDownloadCb d) (Rejected e) s) = downloadCallbacks s"
    by (simp add: continue_def handleCancelDownload_resume_def emit_def)
  from resolved rejected timed_out reaction show ?thesis by blast
qed

theorem cancel_retires_job_only_on_success_witness:
  "map_of (pendingCallbacks
      (run [Request (StartDownload video_options) browser_ok,
            Request (CancelDownload ''J1'') browser_ok] (startup (ConnectOk 1)))) 2 =
     Some (CancelDownloadCb ''J1'') \<and>
   nativePort
      (run [Request (StartDownload video_options) browser_ok,
            Request (CancelDownload ''J1'') browser_ok] (startup (ConnectOk 1))) = Some 1 \<and>
   microtasks
      (run [Request (StartDownload video_options) browser_ok,
            Request (CancelDownload ''J1'') browser_ok] (startup (ConnectOk 1))) = [] \<and>
   msg_id (response_to 2) = Some 2 \<and> \<not> truthy_str (msg_error (response_to 2)) \<and>
   has ''J1'' (downloadCallbacks
      (run [Request (StartDownload video_options) browser_ok,
            Request (CancelDownload ''J1'') browser_ok] (startup (ConnectOk 1)))) \<and>
   \<not> has ''J1'' (downloadCallbacks
      (step (NativeMessage (response_to 2))
        (run [Request (StartDownload video_options) browser_ok,
              Request (CancelDownload ''J1'') browser_ok] (startup (ConnectOk 1)))))"
  using cancel_retires_job_only_on_success
    [of "run [Request (StartDownload video_options) browser_ok,
              Request (CancelDownload ''J1'') browser_ok] (startup (ConnectOk 1))"
        2 "''J1''" "response_to 2" "''x''"]
  by (simp add: eval_defs)

text \<open>
  C3, as the claim states it, fails: \<open>J1\<close> is started and cancelled, the cancel call
  times out, the page is answered with the error, and \<open>J1\<close> is still registered.
\<close>

theorem cancel_timeout_counterexample:
  "has ''J1'' (downloadCallbacks
      (run [Request (StartDownload video_options) browser_ok,
            Request (CancelDownload ''J1'') browser_ok,
            TimerFired 2] (startup (ConnectOk 1)))) \<and>
   emitted
     (run [Request (StartDownload video_options) browser_ok,
           Request (CancelDownload ''J1'') browser_ok] (startup (ConnectOk 1)))
     (run [Request (StartDownload video_options) browser_ok,
           Request (CancelDownload ''J1'') browser_ok,
           TimerFired 2] (startup (ConnectOk 1))) =
     [Settle (Some 2) (Rejected ''Request timed out''),
      SendResponse (ErrorResponse ''Request timed out'')]"
  by (simp add: eval_defs)

section \<open>Starting a download\<close>

text \<open>
  C4, as the code has it. \<open>handleStartDownload\<close> checks nothing in the request: for every
  request, state and behaviour of the browser it registers the generated identifier and
  returns it, and never throws. A download call that fails inside the handler (no
  connection, or a write that throws) is rejected, and the reaction to any rejection of
  the download call sends the job's error event and removes the job.
\<close>

theorem startDownload_always_returns_identifier:
  "snd (handleStartDownload conn post d opts s) = Inr (DownloadStarted d) \<and>
   has d (downloadCallbacks (fst (handleStartDownload conn post d opts s))) \<and>
   (nativePort s = None \<and> conn = ConnectThrows x \<longrightarrow>
      microtasks (fst (handleStartDownload conn post d opts s)) =
        microtasks s @
        [Continue (StartDownloadCb d)
           (Rejected ''Failed to connect to native host. Please check installation.'')]) \<and>
   ((nativePort s \<noteq> None \<or> conn = ConnectOk p) \<and> post = PostThrows e \<longrightarrow>
      microtasks (fst (handleStartDownload conn post d opts s)) =
        microtasks s @ [Continue (StartDownloadCb d) (Rejected e)]) \<and>
   emitted t (continue (StartDownloadCb d) (Rejected e) t) =
     [RuntimeSendMessage (DownloadError d (Some e)),
      NotificationCreate ''Download Failed''
        (if e \<noteq> [] then e else ''An error occurred during download.'') 2] \<and>
   \<not> has d (downloadCallbacks (continue (StartDownloadCb d) (Rejected e) t))"
proof -
  have returns: "snd (handleStartDownload conn post d opts s) = Inr (DownloadStarted d)"
    by (simp add: handleStartDownload_def Let_def)
  have jobs: "downloadCallbacks (sendNativeMessage conn post a dat cb u) = downloadCallbacks u"
    for a dat cb u
    by (simp add: sendNativeMessage_def connectToNativeHost_def prim_defs Let_def
        split: option.split connect_outcome.split post_outcome.split)
  have registered: "has d (downloadCallbacks (fst (handleStartDownload conn post d opts s)))"
    by (simp add: handleStartDownload_def Let_def jobs emit_def has_iff dom_update)
  have no_connection: "nativePort s = None \<and> conn = ConnectThrows x \<longrightarrow>
      microtasks (fst (handleStartDownload conn post d opts s)) =
        microtasks s @
        [Continue (StartDownloadCb d)
           (Rejected ''Failed to connect to native host. Please check installation.'')]"
    by (simp add: handleStartDownload_def sendNativeMessage_def connectToNativeHost_def
        prim_defs Let_def)
  have write_fails: "(nativePort s \<noteq> None \<or> conn = ConnectOk p) \<and> post = PostThrows e \<longrightarrow>
      microtasks (fst (handleStartDownload conn post d opts s)) =
        microtasks s @ [Continue (StartDownloadCb d) (Rejected e)]"
    by (auto simp: handleStartDownload_def sendNativeMessage_def connectToNativeHost_def
        prim_defs Let_def split: option.split)
  have surfaced: "emitted t (continue (StartDownloadCb d) (Rejected e) t) =
     [RuntimeSendMessage (DownloadError d (Some e)),
      NotificationCreate ''Download Failed''
        (if e \<noteq> [] then e else ''An error occurred during download.'') 2]"
    by (simp add: continue_def handleStartDownload_catch_def prim_defs emitted_def
        truthy_str_def)
  have retired: "\<not> has d (downloadCallbacks (continue (StartDownloadCb d) (Rejected e) t))"
    using delete_notin_dom [of d "downloadCallbacks t"]
    by (simp add: continue_def handleStartDownload_catch_def prim_defs has_iff)
  from returns registered no_connection write_fails surfaced retired show ?thesis
    by blast
qed

theorem startDownload_always_returns_identifier_witness:
  "nativePort initial_state = None \<and>
   snd (handleStartDownload (ConnectThrows ''no host'') PostOk ''J1'' video_options initial_state) =
     Inr (DownloadStarted ''J1'') \<and>
   microtasks (fst (handleStartDownload (ConnectThrows ''no host'') PostOk ''J1'' video_options
      initial_state)) =
     [Continue (StartDownloadCb ''J1'')
        (Rejected ''Failed to connect to native host. Please check installation.'')] \<and>
   nativePort (startup (ConnectOk 1)) \<noteq> None \<and>
   microtasks (fst (handleStartDownload (ConnectOk 1) (PostThrows ''port closed'') ''J1''
      video_options (startup (ConnectOk 1)))) =
     [Continue (StartDownloadCb ''J1'') (Rejected ''port closed'')]"
  using startDownload_always_returns_identifier
    [of "ConnectThrows ''no host''" PostOk "''J1''" video_options initial_state "''no host''" 1
        "''port closed''" initial_state]
    startDownload_always_returns_identifier
    [of "ConnectOk 1" "PostThrows ''port closed''" "''J1''" video_options "startup (ConnectOk 1)"
        "''no host''" 1 "''port closed''" initial_state]
  by (simp add: eval_defs)

text \<open>
  C4, as the claim states it, fails on validation: a request with neither \<open>url\<close> nor
  \<open>title\<close> is accepted, registered and sent to the host like any other.
\<close>

theorem startDownload_no_validation_counterexample:
  "url no_options = None \<and> title no_options = None \<and>
   snd (handleStartDownload (ConnectOk 1) PostOk ''J1'' no_options (startup (ConnectOk 1))) =
     Inr (DownloadStarted ''J1'') \<and>
   downloadCallbacks
     (fst (handleStartDownload (ConnectOk 1) PostOk ''J1'' no_options (startup (ConnectOk 1)))) =
     [(''J1'', True)] \<and>
   emitted (startup (ConnectOk 1))
     (fst (handleStartDownload (ConnectOk 1) PostOk ''J1'' no_options (startup (ConnectOk 1)))) =
     [PostMessage \<lparr>req_id = 1, req_action = ''download'',
        req_data = DownloadData ''J1'' no_options\<rparr>,
      NotificationCreate ''Download Started'' ''Downloading: undefined'' 1]"
  by (simp add: prim_defs handler_defs loop_defs no_options_def template_def emitted_def)

section \<open>Testing the connection\<close>



section \<open>When a connection is attempted\<close>

text \<open>
  C9, as the code has it. Loading the script makes one connection attempt. After that a
  turn of the event loop makes one exactly when it is a request that talks to the host and
  the port is absent; a message, a disconnect, a timer and the interval callback make none.
\<close>

theorem connection_attempts:
  "connects (startup conn) = 1 \<and>
   connects (step ev s) = connects s +
     (case ev of
        Request req b \<Rightarrow> if uses_host req \<and> nativePort s = None then 1 else 0
      | NativeMessage m \<Rightarrow> 0
      | NativeDisconnect \<Rightarrow> 0
      | TimerFired i \<Rightarrow> 0
      | KeepAlive \<Rightarrow> 0)"
proof -
  have attempt: "connects (fst (connectToNativeHost conn u)) = connects u + 1" for u
    by (cases conn)
      (simp_all add: connectToNativeHost_def emit_def connects_def split: option.split)
  have "connects initial_state = 0"
    by (simp add: connects_def initial_state_def)
  with attempt have start: "connects (startup conn) = 1"
    by (simp add: startup_def connects_drain)
  have timer: "connects (s\<lparr>timers := ts\<rparr>) = connects s" for ts
    by (simp add: connects_def)
  have turn: "connects (step ev s) = connects s +
     (case ev of
        Request req b \<Rightarrow> if uses_host req \<and> nativePort s = None then 1 else 0
      | NativeMessage m \<Rightarrow> 0
      | NativeDisconnect \<Rightarrow> 0
      | TimerFired i \<Rightarrow> 0
      | KeepAlive \<Rightarrow> 0)"
    by (cases ev)
      (simp_all add: step_def dispatch_def connects_drain connects_handleRequest
        connects_handleNativeMessage connects_onDisconnect connects_timeoutFired timer
        split: option.split)
  from start turn show ?thesis
    by blast
qed

theorem connection_attempts_witness:
  "connects (startup (ConnectThrows ''no host'')) = 1 \<and>
   nativePort (startup (ConnectThrows ''no host'')) = None \<and>
   connects (step (Request TestConnection browser_ok) (startup (ConnectThrows ''no host''))) = 2 \<and>
   connects (step NativeDisconnect (startup (ConnectOk 1))) = 1"
  using connection_attempts
    [of "ConnectThrows ''no host''" "Request TestConnection browser_ok"
        "startup (ConnectThrows ''no host'')"]
    connection_attempts [of "ConnectOk 1" NativeDisconnect "startup (ConnectOk 1)"]
  by (simp add: startup_def drain_def connectToNativeHost_def initial_state_def emit_def)

text \<open>
  C9, as the claim states it, fails: the script connects when it is loaded, before any
  request.
\<close>

theorem startup_connects_counterexample:
  "trace (startup (ConnectOk 1)) = [ConnectNative] \<and>
   trace (startup (ConnectThrows ''no host'')) = [ConnectNative]"
  by (simp add: startup_def drain_def connectToNativeHost_def initial_state_def emit_def)

section \<open>Correlation of calls and responses\<close>

text \<open>
  C6. In every state the worker reaches, by any sequence of requests, inbound messages,
  disconnects and timers: no correlation identifier has been settled twice, no settled
  identifier is still in the pending table, and every call resolved with a message was
  resolved under the identifier that message carries. In any state at all, an inbound
  message settles at most the call whose identifier it carries, only if that call is
  pending, and the entry is gone when the handler returns; a message whose identifier has
  no pending entry settles nothing.
\<close>

theorem calls_settle_at_most_once:
  "distinct (settled_ids (trace (run evs (startup conn)))) \<and>
   (\<forall>i \<in> set (settled_ids (trace (run evs (startup conn)))).
      \<not> has i (pendingCallbacks (run evs (startup conn)))) \<and>
   list_all own_response (trace (run evs (startup conn))) \<and>
   set (settled_ids (emitted s (handleNativeMessage m s))) \<subseteq>
     (case msg_id m of
        None \<Rightarrow> {}
      | Some i \<Rightarrow> if has i (pendingCallbacks s) then {i} else {}) \<and>
   (\<forall>i \<in> set (settled_ids (emitted s (handleNativeMessage m s))).
      \<not> has i (pendingCallbacks (handleNativeMessage m s)))"
proof -
  have "quiescent (run evs (startup conn))"
    by (simp add: wf_run wf_startup)
  then have reach: "wf_tables (run evs (startup conn))"
    by (simp add: quiescent_def)
  have once: "distinct (settled_ids (trace (run evs (startup conn))))"
    using reach by (rule wf_settled_distinct)
  have removed: "\<forall>i \<in> set (settled_ids (trace (run evs (startup conn)))).
      \<not> has i (pendingCallbacks (run evs (startup conn)))"
    using reach by (simp add: wf_tables_def)
  have own: "list_all own_response (trace (run evs (startup conn)))"
    using reach by (rule wf_responses)
  have routed: "set (settled_ids (emitted s (handleNativeMessage m s))) \<subseteq>
     (case msg_id m of
        None \<Rightarrow> {}
      | Some i \<Rightarrow> if has i (pendingCallbacks s) then {i} else {}) \<and>
   (\<forall>i \<in> set (settled_ids (emitted s (handleNativeMessage m s))).
      \<not> has i (pendingCallbacks (handleNativeMessage m s)))"
  proof (cases "pending_entry m s")
    case None
    then show ?thesis
      by (simp add: handleNativeMessage_def Let_def prim_defs emitted_def
          split: option.split)
  next
    case (Some a)
    obtain i cb where a: "a = (i, cb)" by (cases a)
    from Some a have i: "msg_id m = Some i" "has i (pendingCallbacks s)"
      by (auto simp: pending_entry_def has_def split: option.splits if_splits)
    with Some a show ?thesis
      by (simp add: handleNativeMessage_def Let_def settle_def emitted_def
          split: option.split)
  qed
  from once removed own routed show ?thesis
    by blast
qed

theorem calls_settle_at_most_once_witness:
  "settled_ids (trace (run [Request (StartDownload video_options) browser_ok,
      Request (CancelDownload ''J1'') browser_ok,
      NativeMessage (response_to 2), NativeMessage (response_to 2)] (startup (ConnectOk 1)))) = [2] \<and>
   pendingCallbacks (run [Request (StartDownload video_options) browser_ok,
      Request (CancelDownload ''J1'') browser_ok,
      NativeMessage (response_to 2), NativeMessage (response_to 2)] (startup (ConnectOk 1))) =
     [(1, StartDownloadCb ''J1'')]"
  using calls_settle_at_most_once
    [of "[Request (StartDownload video_options) browser_ok,
      Request (CancelDownload ''J1'') browser_ok,
      NativeMessage (response_to 2), NativeMessage (response_to 2)]" "ConnectOk 1"
      "startup (ConnectOk 1)" "response_to 2"]
  by (simp add: eval_defs settled_ids_Cons)

section \<open>A write that throws\<close>

text \<open>
  C10. Every state the worker reaches satisfies \<open>wf_tables\<close>; and in every such state
  (between turns or inside a handler), when the port is there or can be opened and
  \<open>postMessage\<close> throws an error \<open>e\<close>, the pending table after \<open>sendNativeMessage\<close> is
  the table before it, the new identifier is not in it, and the only call settled is the
  new one, rejected with \<open>e\<close>.
\<close>

theorem failed_write_leaves_no_entry:
  "wf_tables (run evs (startup c)) \<and>
   (wf_tables s \<and> (nativePort s \<noteq> None \<or> conn = ConnectOk p) \<longrightarrow>
      pendingCallbacks (sendNativeMessage conn (PostThrows e) action dat cb s) = pendingCallbacks s \<and>
      \<not> has (messageId s + 1) (pendingCallbacks (sendNativeMessage conn (PostThrows e) action dat cb s)) \<and>
      settled_ids (emitted s (sendNativeMessage conn (PostThrows e) action dat cb s)) =
        [messageId s + 1] \<and>
      Settle (Some (messageId s + 1)) (Rejected e) \<in>
        set (emitted s (sendNativeMessage conn (PostThrows e) action dat cb s)) \<and>
      microtasks (sendNativeMessage conn (PostThrows e) action dat cb s) =
        microtasks s @ [Continue cb (Rejected e)])"
proof -
  have "quiescent (run evs (startup c))"
    by (simp add: wf_run wf_startup)
  then have reach: "wf_tables (run evs (startup c))"
    by (simp add: quiescent_def)
  have call: "pendingCallbacks (sendNativeMessage conn (PostThrows e) action dat cb s) = pendingCallbacks s \<and>
      \<not> has (messageId s + 1) (pendingCallbacks (sendNativeMessage conn (PostThrows e) action dat cb s)) \<and>
      settled_ids (emitted s (sendNativeMessage conn (PostThrows e) action dat cb s)) =
        [messageId s + 1] \<and>
      Settle (Some (messageId s + 1)) (Rejected e) \<in>
        set (emitted s (sendNativeMessage conn (PostThrows e) action dat cb s)) \<and>
      microtasks (sendNativeMessage conn (PostThrows e) action dat cb s) =
        microtasks s @ [Continue cb (Rejected e)]"
    if wf: "wf_tables s" and port: "nativePort s \<noteq> None \<or> conn = ConnectOk p"
  proof -
    from wf have fresh: "\<not> has (messageId s + 1) (pendingCallbacks s)"
      by (auto simp: has_entry dest: wf_keys_le)
    then have restore: "AList.delete (Suc (messageId s))
        (AList.update (Suc (messageId s)) cb (pendingCallbacks s)) = pendingCallbacks s"
      by (simp add: delete_update_same has_iff)
    show ?thesis
      using port fresh restore
      by (cases "nativePort s")
        (auto simp: sendNativeMessage_def connectToNativeHost_def Let_def settle_def emit_def
          emitted_def settled_ids_Cons)
  qed
  with reach show ?thesis
    by blast
qed

theorem failed_write_leaves_no_entry_witness:
  "wf_tables (startup (ConnectOk 1)) \<and> nativePort (startup (ConnectOk 1)) \<noteq> None \<and>
   pendingCallbacks (sendNativeMessage (ConnectOk 1) (PostThrows ''port closed'') ''test'' NoData
      TestConnectionCb (startup (ConnectOk 1))) = [] \<and>
   emitted (startup (ConnectOk 1))
     (sendNativeMessage (ConnectOk 1) (PostThrows ''port closed'') ''test'' NoData
        TestConnectionCb (startup (ConnectOk 1))) =
     [SetTimeout 1 30000, Settle (Some 1) (Rejected ''port closed'')]"
  using failed_write_leaves_no_entry
    [of "[]" "ConnectOk 1" "startup (ConnectOk 1)" "ConnectOk 1" 1 "''port closed''" "''test''"
        NoData TestConnectionCb]
  by (simp add: eval_defs wf_tables_def)

section \<open>Timeouts\<close>

subsection \<open>What keeps a pending entry in the table\<close>

lemma pending_continue: "pendingCallbacks (continue cb out s) = pendingCallbacks s"
  by (cases cb; cases out)
    (simp_all add: continue_def handleCancelDownload_resume_def handleStartDownload_catch_def
      prim_defs)

lemma pending_run_microtask: "pendingCallbacks (run_microtask m s) = pendingCallbacks s"
  by (cases m) (simp_all add: pending_continue emit_def)

lemma pending_microtasks:
  "pendingCallbacks (foldl (\<lambda>t m. run_microtask m t) s ms) = pendingCallbacks s"
  by (induction ms arbitrary: s) (simp_all add: pending_run_microtask)

lemma pending_drain: "pendingCallbacks (drain s) = pendingCallbacks s"
  by (simp add: drain_def pending_microtasks)

lemma entry_kept_sendNativeMessage:
  assumes wf: "wf_tables s" and entry: "(i, cb) \<in> set (pendingCallbacks s)"
  shows "(i, cb) \<in> set (pendingCallbacks (sendNativeMessage conn post action dat cb' s))"
proof -
  from wf entry have le: "i \<le> messageId s"
    by (rule wf_keys_le)
  from wf have fresh: "\<not> has (Suc (messageId s)) (pendingCallbacks s)"
    by (auto simp: has_entry dest: wf_keys_le)
  show ?thesis
    using entry le fresh
    by (cases post; cases conn; cases "nativePort s")
      (auto simp: sendNativeMessage_def connectToNativeHost_def Let_def settle_def emit_def
        in_update_fresh in_delete)
qed

lemma entry_kept_handleRequest:
  assumes wf: "wf_tables s" and entry: "(i, cb) \<in> set (pendingCallbacks s)"
  shows "(i, cb) \<in> set (pendingCallbacks (handleRequest req b s))"
proof (cases req)
  case (StartDownload opts)
  let ?s1 = "s\<lparr>downloadCallbacks := AList.update (generated_downloadId b) True (downloadCallbacks s)\<rparr>"
  have "wf_tables ?s1"
    using wf by (rule wf_tables_register)
  moreover have "(i, cb) \<in> set (pendingCallbacks ?s1)"
    using entry by simp
  ultimately have "(i, cb) \<in> set (pendingCallbacks (sendNativeMessage conn post action dat cb' ?s1))"
    for conn post action dat cb'
    by (rule entry_kept_sendNativeMessage)
  with StartDownload show ?thesis
    by (simp add: handleRequest_def handleStartDownload_def Let_def enqueue_def emit_def)
qed (use wf entry in \<open>simp_all add: handleRequest_def handleTestConnection_def
      handleCancelDownload_def handleSelectDirectory_def handleOpenFolder_def
      entry_kept_sendNativeMessage enqueue_def emit_def split: option.split\<close>)

lemma entry_kept_handleNativeMessage:
  assumes entry: "(i, cb) \<in> set (pendingCallbacks s)" and other: "msg_id m \<noteq> Some i"
  shows "(i, cb) \<in> set (pendingCallbacks (handleNativeMessage m s))"
proof (cases "pending_entry m s")
  case None
  with entry show ?thesis
    by (simp add: handleNativeMessage_def Let_def prim_defs split: option.split)
next
  case (Some a)
  obtain j c where a: "a = (j, c)" by (cases a)
  from Some a other have "j \<noteq> i"
    by (auto simp: pending_entry_def split: option.splits if_splits)
  with Some a entry show ?thesis
    by (simp add: handleNativeMessage_def Let_def settle_def in_delete split: option.split)
qed

lemma entry_kept_timeoutFired:
  assumes entry: "(i, cb) \<in> set (pendingCallbacks s)" and other: "timer_id t \<noteq> i"
  shows "(i, cb) \<in> set (pendingCallbacks (timeoutFired t s))"
  using assms by (cases t) (simp add: timeoutFired_def settle_def in_delete)

lemma entry_kept_dispatch:
  assumes wf: "wf_tables s" and entry: "(i, cb) \<in> set (pendingCallbacks s)"
    and cb: "is_download cb" and ev: "\<not> can_end i ev"
  shows "(i, cb) \<in> set (pendingCallbacks (dispatch ev s))"
proof (cases ev)
  case (Request req b)
  with wf entry show ?thesis
    by (simp add: dispatch_def entry_kept_handleRequest)
next
  case (NativeMessage m)
  with ev entry show ?thesis
    by (simp add: dispatch_def entry_kept_handleNativeMessage)
next
  case NativeDisconnect
  with ev show ?thesis by simp
next
  case (TimerFired j)
  show ?thesis
  proof (cases "find (\<lambda>t. timer_id t = j) (timers s)")
    case None
    with TimerFired entry show ?thesis by (simp add: dispatch_def)
  next
    case (Some t)
    then have "t \<in> set (timers s)"
      by (auto simp: find_Some_iff)
    with wf entry cb have "timer_id t \<noteq> i"
      by (rule wf_unarmed)
    then have "(i, cb) \<in> set (pendingCallbacks (timeoutFired t (s\<lparr>timers := remove1 t (timers s)\<rparr>)))"
      using entry by (intro entry_kept_timeoutFired) simp_all
    with TimerFired Some show ?thesis by (simp add: dispatch_def)
  qed
next
  case KeepAlive
  with entry show ?thesis by (simp add: dispatch_def)
qed

lemma entry_kept_run:
  assumes "quiescent s" and "(i, cb) \<in> set (pendingCallbacks s)" and "is_download cb"
    and "\<forall>ev \<in> set evs. \<not> can_end i ev"
  shows "(i, cb) \<in> set (pendingCallbacks (run evs s))"
  using assms
proof (induction evs arbitrary: s)
  case Nil
  then show ?case by simp
next
  case (Cons ev evs)
  from Cons.prems have "(i, cb) \<in> set (pendingCallbacks (step ev s))"
    by (simp add: step_def pending_drain entry_kept_dispatch quiescent_def)
  moreover from Cons.prems have "quiescent (step ev s)"
    by (simp add: wf_step)
  ultimately show ?case
    using Cons.IH Cons.prems by simp
qed

text \<open>
  C7. A call whose action is not \<open>download\<close>, once the port is there or has been opened,
  arms a timer of 30000 ms for its identifier; when that timer fires and the call is still
  pending, the call is rejected with \<open>Request timed out\<close> and its entry removed, and when
  the call is no longer pending nothing happens. A \<open>download\<close> call arms no timer. In
  every state the worker reaches, a pending download call stays pending and unsettled
  through any number of further events, timers included, as long as none of them is a
  message carrying its identifier or a disconnect.
\<close>

theorem timeout_only_for_one_shot_calls:
  "(action \<noteq> ''download'' \<and> (nativePort s \<noteq> None \<or> conn = ConnectOk p) \<longrightarrow>
      Timer (messageId s + 1) cb \<in> set (timers (sendNativeMessage conn post action dat cb s)) \<and>
      SetTimeout (messageId s + 1) 30000 \<in>
        set (emitted s (sendNativeMessage conn post action dat cb s))) \<and>
   (has i (pendingCallbacks t) \<longrightarrow>
      emitted t (timeoutFired (Timer i cb) t) = [Settle (Some i) (Rejected ''Request timed out'')] \<and>
      microtasks (timeoutFired (Timer i cb) t) =
        microtasks t @ [Continue cb (Rejected ''Request timed out'')] \<and>
      \<not> has i (pendingCallbacks (timeoutFired (Timer i cb) t))) \<and>
   (\<not> has i (pendingCallbacks t) \<longrightarrow> timeoutFired (Timer i cb) t = t) \<and>
   timers (sendNativeMessage conn post ''download'' dat cb s) = timers s \<and>
   (\<forall>k ms. SetTimeout k ms \<notin> set (emitted s (sendNativeMessage conn post ''download'' dat cb s))) \<and>
   ((j, StartDownloadCb d) \<in> set (pendingCallbacks (run evs (startup c))) \<and>
    (\<forall>ev \<in> set evs'. \<not> can_end j ev) \<longrightarrow>
      (j, StartDownloadCb d) \<in> set (pendingCallbacks (run evs' (run evs (startup c)))) \<and>
      j \<notin> set (settled_ids (trace (run evs' (run evs (startup c))))))"
proof -
  have armed: "action \<noteq> ''download'' \<and> (nativePort s \<noteq> None \<or> conn = ConnectOk p) \<longrightarrow>
      Timer (messageId s + 1) cb \<in> set (timers (sendNativeMessage conn post action dat cb s)) \<and>
      SetTimeout (messageId s + 1) 30000 \<in>
        set (emitted s (sendNativeMessage conn post action dat cb s))"
    by (cases post; cases "nativePort s")
      (auto simp: sendNativeMessage_def connectToNativeHost_def Let_def settle_def emit_def
        emitted_def)
  have fires: "has i (pendingCallbacks t) \<longrightarrow>
      emitted t (timeoutFired (Timer i cb) t) = [Settle (Some i) (Rejected ''Request timed out'')] \<and>
      microtasks (timeoutFired (Timer i cb) t) =
        microtasks t @ [Continue cb (Rejected ''Request timed out'')] \<and>
      \<not> has i (pendingCallbacks (timeoutFired (Timer i cb) t))"
    by (simp add: timeoutFired_def settle_def emitted_def)
  have late: "\<not> has i (pendingCallbacks t) \<longrightarrow> timeoutFired (Timer i cb) t = t"
    by (simp add: timeoutFired_def)
  have unarmed: "timers (sendNativeMessage conn post ''download'' dat cb s) = timers s"
    by (cases post; cases conn; cases "nativePort s")
      (simp_all add: sendNativeMessage_def connectToNativeHost_def Let_def settle_def emit_def)
  have no_timer: "\<forall>k ms. SetTimeout k ms \<notin>
      set (emitted s (sendNativeMessage conn post ''download'' dat cb s))"
    by (cases post; cases conn; cases "nativePort s")
      (simp_all add: sendNativeMessage_def connectToNativeHost_def Let_def settle_def emit_def
        emitted_def)
  have stays: "(j, StartDownloadCb d) \<in> set (pendingCallbacks (run evs' (run evs (startup c)))) \<and>
      j \<notin> set (settled_ids (trace (run evs' (run evs (startup c)))))"
    if entry: "(j, StartDownloadCb d) \<in> set (pendingCallbacks (run evs (startup c)))"
      and quiet: "\<forall>ev \<in> set evs'. \<not> can_end j ev"
  proof -
    have wf: "quiescent (run evs (startup c))"
      by (simp add: wf_run wf_startup)
    have kept: "(j, StartDownloadCb d) \<in> set (pendingCallbacks (run evs' (run evs (startup c))))"
      using wf entry _ quiet by (rule entry_kept_run) simp
    from wf have "wf_tables (run evs' (run evs (startup c)))"
      using wf_run [of "run evs (startup c)" evs'] by (simp add: quiescent_def)
    with kept have "j \<notin> set (settled_ids (trace (run evs' (run evs (startup c)))))"
      using wf_settled_not_pending by blast
    with kept show ?thesis
      by simp
  qed
  from armed fires late unarmed no_timer stays show ?thesis
    by blast
qed

theorem timeout_only_for_one_shot_calls_witness:
  "(1, StartDownloadCb ''J1'') \<in> set (pendingCallbacks
      (run [Request (StartDownload video_options) browser_ok] (startup (ConnectOk 1)))) \<and>
   \<not> can_end 1 (TimerFired 1) \<and> \<not> can_end 1 KeepAlive \<and>
   \<not> can_end 1 (NativeMessage progress_J1) \<and>
   (1, StartDownloadCb ''J1'') \<in> set (pendingCallbacks
      (run [TimerFired 1, KeepAlive, NativeMessage progress_J1, TimerFired 1]
        (run [Request (StartDownload video_options) browser_ok] (startup (ConnectOk 1))))) \<and>
   nativePort (startup (ConnectOk 1)) \<noteq> None \<and>
   Timer 1 TestConnectionCb \<in> set (timers
      (sendNativeMessage (ConnectOk 1) PostOk ''test'' NoData TestConnectionCb (startup (ConnectOk 1)))) \<and>
   has 1 (pendingCallbacks
      (sendNativeMessage (ConnectOk 1) PostOk ''test'' NoData TestConnectionCb (startup (ConnectOk 1)))) \<and>
   emitted
     (sendNativeMessage (ConnectOk 1) PostOk ''test'' NoData TestConnectionCb (startup (ConnectOk 1)))
     (timeoutFired (Timer 1 TestConnectionCb)
       (sendNativeMessage (ConnectOk 1) PostOk ''test'' NoData TestConnectionCb (startup (ConnectOk 1)))) =
     [Settle (Some 1) (Rejected ''Request timed out'')]"
  using timeout_only_for_one_shot_calls
    [of "''test''" "startup (ConnectOk 1)" "ConnectOk 1" 1 TestConnectionCb PostOk NoData 1
        "sendNativeMessage (ConnectOk 1) PostOk ''test'' NoData TestConnectionCb (startup (ConnectOk 1))"
        1 "''J1''" "[Request (StartDownload video_options) browser_ok]" "ConnectOk 1"
        "[TimerFired 1, KeepAlive, NativeMessage progress_J1, TimerFired 1]"]
  by (simp add: eval_defs)

section \<open>Disconnect\<close>

subsection \<open>Counting what the disconnect listener emits\<close>

lemma count_rejections:
  "distinct (map fst al) \<Longrightarrow> (i, cb) \<in> set al \<Longrightarrow>
     count_list (map (\<lambda>(i, cb). Settle (Some i) out) al) (Settle (Some i) out) = 1"
  by (induction al) (auto simp: count_list_0_iff rev_image_eqI)

lemma count_rejections_in_errors:
  "count_list (concat (map (\<lambda>(d, b). [RuntimeSendMessage (f d), NotificationCreate x y z]) al))
     (Settle i out) = 0"
  by (induction al) auto

lemma count_errors:
  "distinct (map fst al) \<Longrightarrow> (d, b) \<in> set al \<Longrightarrow>
     count_list (concat (map (\<lambda>(d, b). [RuntimeSendMessage (DownloadError d e),
         NotificationCreate x y z]) al))
       (RuntimeSendMessage (DownloadError d e)) = 1"
  by (induction al) (auto simp: count_list_0_iff rev_image_eqI)

lemma count_errors_in_rejections:
  "count_list (map (\<lambda>(i, cb). Settle (Some i) out) al) (RuntimeSendMessage u) = 0"
  by (induction al) auto

lemma trace_continue_disconnected:
  "\<exists>es. trace (continue cb (Rejected ''Native host disconnected'') t) = trace t @ es \<and>
     (\<forall>i out. Settle i out \<notin> set es) \<and>
     (\<forall>d. RuntimeSendMessage (DownloadError d (Some ''Native host connection lost'')) \<notin> set es)"
  by (cases cb)
    (simp_all add: continue_def handleTestConnection_resume_def handleCancelDownload_resume_def
      handleSelectDirectory_resume_def handleOpenFolder_resume_def handleStartDownload_catch_def
      reply_of_def prim_defs)

lemma trace_reactions_disconnected:
  "\<exists>es. trace (foldl (\<lambda>t m. run_microtask m t) t
        (map (\<lambda>(i, cb). Continue cb (Rejected ''Native host disconnected'')) al)) = trace t @ es \<and>
     (\<forall>i out. Settle i out \<notin> set es) \<and>
     (\<forall>d. RuntimeSendMessage (DownloadError d (Some ''Native host connection lost'')) \<notin> set es)"
proof (induction al arbitrary: t)
  case Nil
  then show ?case by simp
next
  case (Cons a al)
  obtain i cb where a: "a = (i, cb)" by (cases a)
  let ?t' = "continue cb (Rejected ''Native host disconnected'') t"
  from trace_continue_disconnected [of cb t]
  obtain es where es: "trace ?t' = trace t @ es" "\<forall>i out. Settle i out \<notin> set es"
    "\<forall>d. RuntimeSendMessage (DownloadError d (Some ''Native host connection lost'')) \<notin> set es"
    by blast
  from Cons.IH [of ?t']
  obtain es' where es': "trace (foldl (\<lambda>t m. run_microtask m t) ?t'
        (map (\<lambda>(i, cb). Continue cb (Rejected ''Native host disconnected'')) al)) = trace ?t' @ es'"
    "\<forall>i out. Settle i out \<notin> set es'"
    "\<forall>d. RuntimeSendMessage (DownloadError d (Some ''Native host connection lost'')) \<notin> set es'"
    by blast
  show ?case
    using es es' a by (intro exI [of _ "es @ es'"]) simp
qed

lemma jobs_continue_empty:
  "downloadCallbacks t = [] \<Longrightarrow> downloadCallbacks (continue cb out t) = []"
  by (cases cb; cases out)
    (simp_all add: continue_def handleCancelDownload_resume_def handleStartDownload_catch_def
      prim_defs)

lemma jobs_microtasks_empty:
  "downloadCallbacks t = [] \<Longrightarrow> downloadCallbacks (foldl (\<lambda>t m. run_microtask m t) t ms) = []"
proof (induction ms arbitrary: t)
  case Nil
  then show ?case by simp
next
  case (Cons m ms)
  from Cons.prems have "downloadCallbacks (run_microtask m t) = []"
    by (cases m) (simp_all add: jobs_continue_empty emit_def)
  then show ?case
    using Cons.IH by simp
qed

lemma port_continue: "nativePort (continue cb out t) = nativePort t"
  by (cases cb; cases out)
    (simp_all add: continue_def handleCancelDownload_resume_def handleStartDownload_catch_def
      prim_defs)

lemma port_microtasks: "nativePort (foldl (\<lambda>t m. run_microtask m t) t ms) = nativePort t"
proof (induction ms arbitrary: t)
  case Nil
  then show ?case by simp
next
  case (Cons m ms)
  have "nativePort (run_microtask m t) = nativePort t"
    by (cases m) (simp_all add: port_continue emit_def)
  then show ?case
    using Cons.IH by simp
qed

text \<open>
  What the turn of a disconnect does in a quiescent state with a port: every pending call
  is rejected exactly once with \<open>Native host disconnected\<close>, the listener sends every
  registered job exactly one error event with the reason \<open>Native host connection lost\<close>,
  and the turn ends with both tables empty and no port.
\<close>

lemma disconnect_turn:
  "quiescent (run evs (startup c)) \<and>
   (quiescent s \<and> nativePort s \<noteq> None \<longrightarrow>
      (\<forall>(i, cb) \<in> set (pendingCallbacks s).
         count_list (emitted s (step NativeDisconnect s))
           (Settle (Some i) (Rejected ''Native host disconnected'')) = 1) \<and>
      (\<forall>(d, b) \<in> set (downloadCallbacks s).
         count_list (emitted s (step NativeDisconnect s))
           (RuntimeSendMessage (DownloadError d (Some ''Native host connection lost''))) = 1) \<and>
      pendingCallbacks (step NativeDisconnect s) = [] \<and>
      downloadCallbacks (step NativeDisconnect s) = [] \<and>
      nativePort (step NativeDisconnect s) = None)"
proof -
  have reach: "quiescent (run evs (startup c))"
    by (simp add: wf_run wf_startup)
  have turn: "(\<forall>(i, cb) \<in> set (pendingCallbacks s).
         count_list (emitted s (step NativeDisconnect s))
           (Settle (Some i) (Rejected ''Native host disconnected'')) = 1) \<and>
      (\<forall>(d, b) \<in> set (downloadCallbacks s).
         count_list (emitted s (step NativeDisconnect s))
           (RuntimeSendMessage (DownloadError d (Some ''Native host connection lost''))) = 1) \<and>
      pendingCallbacks (step NativeDisconnect s) = [] \<and>
      downloadCallbacks (step NativeDisconnect s) = [] \<and>
      nativePort (step NativeDisconnect s) = None"
    if quiet: "quiescent s" and port: "nativePort s \<noteq> None"
  proof -
    let ?rejections = "map (\<lambda>(i, cb). Settle (Some i) (Rejected ''Native host disconnected''))
        (pendingCallbacks s)"
    let ?errors = "concat (map (\<lambda>(d, b).
        [RuntimeSendMessage (DownloadError d (Some ''Native host connection lost'')),
         NotificationCreate ''Download Failed'' ''Native host connection lost'' 2])
        (downloadCallbacks s))"
    let ?t = "(onDisconnect s)\<lparr>microtasks := []\<rparr>"
    let ?reactions = "map (\<lambda>(i, cb). Continue cb (Rejected ''Native host disconnected''))
        (pendingCallbacks s)"
    from quiet have wf: "wf_tables s" and idle: "microtasks s = []"
      by (simp_all add: quiescent_def)
    from port obtain p where p: "nativePort s = Some p"
      by auto
    have step: "step NativeDisconnect s = foldl (\<lambda>t m. run_microtask m t) ?t ?reactions"
      by (simp add: step_def dispatch_def drain_def onDisconnect_eq idle p)
    have before: "trace ?t = trace s @ ?rejections @ ?errors"
      by (simp add: onDisconnect_eq)
    from trace_reactions_disconnected [of ?t "pendingCallbacks s"]
    obtain es where es: "trace (step NativeDisconnect s) = trace ?t @ es"
      "\<forall>i out. Settle i out \<notin> set es"
      "\<forall>d. RuntimeSendMessage (DownloadError d (Some ''Native host connection lost'')) \<notin> set es"
      unfolding step by blast
    have emitted: "emitted s (step NativeDisconnect s) = ?rejections @ ?errors @ es"
      by (simp add: emitted_def es(1) before)
    have calls: "count_list (emitted s (step NativeDisconnect s))
        (Settle (Some i) (Rejected ''Native host disconnected'')) = 1"
      if "(i, cb) \<in> set (pendingCallbacks s)" for i cb
      using that es(2) wf_keys_distinct [OF wf]
      by (simp add: emitted count_rejections count_rejections_in_errors count_list_0_iff)
    have jobs: "count_list (emitted s (step NativeDisconnect s))
        (RuntimeSendMessage (DownloadError d (Some ''Native host connection lost''))) = 1"
      if "(d, b) \<in> set (downloadCallbacks s)" for d b
      using that es(3) wf_jobs_distinct [OF wf]
      by (simp add: emitted count_errors count_errors_in_rejections count_list_0_iff)
    have pending: "pendingCallbacks (step NativeDisconnect s) = []"
      by (simp add: step_def dispatch_def pending_drain onDisconnect_eq p)
    have table: "downloadCallbacks (step NativeDisconnect s) = []"
      unfolding step by (rule jobs_microtasks_empty) (simp add: onDisconnect_eq)
    have gone: "nativePort (step NativeDisconnect s) = None"
      unfolding step by (simp add: port_microtasks onDisconnect_eq)
    from calls jobs pending table gone show ?thesis
      by blast
  qed
  with reach show ?thesis
    by blast
qed

text \<open>
  The error events one job is sent in that turn, all of them: the listener's, and after it
  one more for every download call of the job that was still pending, sent by the
  \<open>.catch\<close> of the rejected call.
\<close>

lemma job_errors_append [simp]: "job_errors d (xs @ ys) = job_errors d xs @ job_errors d ys"
  by (simp add: job_errors_def)

lemma job_errors_rejections:
  "job_errors d (map (\<lambda>(i, cb). Settle (Some i) out) al) = []"
  by (induction al) (auto simp: job_errors_def)

lemma job_errors_other_jobs:
  "d \<notin> fst ` set al \<Longrightarrow>
     job_errors d (concat (map (\<lambda>(d, b). [RuntimeSendMessage (DownloadError d e),
         NotificationCreate x y z]) al)) = []"
  by (induction al) (auto simp: job_errors_def)

lemma job_errors_listener:
  "distinct (map fst al) \<Longrightarrow> (d, b) \<in> set al \<Longrightarrow>
     job_errors d (concat (map (\<lambda>(d, b). [RuntimeSendMessage (DownloadError d e),
         NotificationCreate x y z]) al)) = [RuntimeSendMessage (DownloadError d e)]"
proof (induction al)
  case Nil
  then show ?case by simp
next
  case (Cons a al)
  obtain d' b' where a: "a = (d', b')" by (cases a)
  show ?case
  proof (cases "d' = d")
    case True
    with Cons.prems a have "d \<notin> fst ` set al" by auto
    then have "job_errors d (concat (map (\<lambda>(d, b). [RuntimeSendMessage (DownloadError d e),
         NotificationCreate x y z]) al)) = []"
      by (rule job_errors_other_jobs)
    with True a show ?thesis
      by (simp add: job_errors_def)
  next
    case False
    with Cons a show ?thesis
      by (auto simp: job_errors_def)
  qed
qed

lemma job_errors_continue:
  "\<exists>es. trace (continue cb (Rejected e) t) = trace t @ es \<and>
     job_errors d es =
       (if cb = StartDownloadCb d then [RuntimeSendMessage (DownloadError d (Some e))] else [])"
  by (cases cb)
    (auto simp: continue_def handleTestConnection_resume_def handleCancelDownload_resume_def
      handleSelectDirectory_resume_def handleOpenFolder_resume_def handleStartDownload_catch_def
      reply_of_def prim_defs job_errors_def)

lemma job_errors_reactions:
  "\<exists>es. trace (foldl (\<lambda>t m. run_microtask m t) t
        (map (\<lambda>(i, cb). Continue cb (Rejected e)) al)) = trace t @ es \<and>
     job_errors d es =
       map (\<lambda>c. RuntimeSendMessage (DownloadError d (Some e))) (download_calls d al)"
proof (induction al arbitrary: t)
  case Nil
  then show ?case by (simp add: download_calls_def job_errors_def)
next
  case (Cons a al)
  obtain i cb where a: "a = (i, cb)" by (cases a)
  let ?t' = "continue cb (Rejected e) t"
  from job_errors_continue [of cb e t d]
  obtain es where es: "trace ?t' = trace t @ es"
    "job_errors d es =
       (if cb = StartDownloadCb d then [RuntimeSendMessage (DownloadError d (Some e))] else [])"
    by blast
  from Cons.IH [of ?t']
  obtain es' where es': "trace (foldl (\<lambda>t m. run_microtask m t) ?t'
        (map (\<lambda>(i, cb). Continue cb (Rejected e)) al)) = trace ?t' @ es'"
    "job_errors d es' =
       map (\<lambda>c. RuntimeSendMessage (DownloadError d (Some e))) (download_calls d al)"
    by blast
  show ?case
    using es es' a by (intro exI [of _ "es @ es'"]) (simp add: download_calls_def)
qed

lemma disconnect_job_errors:
  assumes quiet: "quiescent s" and port: "nativePort s \<noteq> None"
    and job: "(d, b) \<in> set (downloadCallbacks s)"
  shows "job_errors d (emitted s (step NativeDisconnect s)) =
     RuntimeSendMessage (DownloadError d (Some ''Native host connection lost'')) #
     map (\<lambda>c. RuntimeSendMessage (DownloadError d (Some ''Native host disconnected'')))
       (download_calls d (pendingCallbacks s))"
proof -
  let ?rejections = "map (\<lambda>(i, cb). Settle (Some i) (Rejected ''Native host disconnected''))
      (pendingCallbacks s)"
  let ?errors = "concat (map (\<lambda>(d, b).
      [RuntimeSendMessage (DownloadError d (Some ''Native host connection lost'')),
       NotificationCreate ''Download Failed'' ''Native host connection lost'' 2])
      (downloadCallbacks s))"
  let ?t = "(onDisconnect s)\<lparr>microtasks := []\<rparr>"
  let ?reactions = "map (\<lambda>(i, cb). Continue cb (Rejected ''Native host disconnected''))
      (pendingCallbacks s)"
  from quiet have wf: "wf_tables s" and idle: "microtasks s = []"
    by (simp_all add: quiescent_def)
  from port obtain p where p: "nativePort s = Some p"
    by auto
  have step: "step NativeDisconnect s = foldl (\<lambda>t m. run_microtask m t) ?t ?reactions"
    by (simp add: step_def dispatch_def drain_def onDisconnect_eq idle p)
  have before: "trace ?t = trace s @ ?rejections @ ?errors"
    by (simp add: onDisconnect_eq)
  from job_errors_reactions [of ?t "''Native host disconnected''" "pendingCallbacks s" d]
  obtain es where es: "trace (step NativeDisconnect s) = trace ?t @ es"
    "job_errors d es =
       map (\<lambda>c. RuntimeSendMessage (DownloadError d (Some ''Native host disconnected'')))
         (download_calls d (pendingCallbacks s))"
    unfolding step by blast
  have emitted: "emitted s (step NativeDisconnect s) = ?rejections @ ?errors @ es"
    by (simp add: emitted_def es(1) before)
  show ?thesis
    using job es(2) wf_jobs_distinct [OF wf]
    by (simp add: emitted job_errors_rejections job_errors_listener)
qed

text \<open>
  C5, on the code. The calls are rejected and the tables are emptied as claimed, and a job
  whose download call has been answered is sent exactly one error event. A job whose
  download call is still pending is sent two, and two \<open>Download Failed\<close> notifications
  are raised: \<open>J1\<close> is started, the port disconnects before the host has answered the
  download call. The listener and the \<open>.catch\<close> each retire the job after their event,
  but the \<open>.catch\<close> runs when the listener has already sent its own.
\<close>

theorem disconnect_sends_second_error:
  "quiescent (run [Request (StartDownload video_options) browser_ok] (startup (ConnectOk 1))) \<and>
   nativePort (run [Request (StartDownload video_options) browser_ok] (startup (ConnectOk 1))) = Some 1 \<and>
   downloadCallbacks (run [Request (StartDownload video_options) browser_ok] (startup (ConnectOk 1))) =
     [(''J1'', True)] \<and>
   pendingCallbacks (run [Request (StartDownload video_options) browser_ok] (startup (ConnectOk 1))) =
     [(1, StartDownloadCb ''J1'')] \<and>
   emitted
     (run [Request (StartDownload video_options) browser_ok] (startup (ConnectOk 1)))
     (run [Request (StartDownload video_options) browser_ok, NativeDisconnect] (startup (ConnectOk 1))) =
     [Settle (Some 1) (Rejected ''Native host disconnected''),
      RuntimeSendMessage (DownloadError ''J1'' (Some ''Native host connection lost'')),
      NotificationCreate ''Download Failed'' ''Native host connection lost'' 2,
      RuntimeSendMessage (DownloadError ''J1'' (Some ''Native host disconnected'')),
      NotificationCreate ''Download Failed'' ''Native host disconnected'' 2] \<and>
   job_errors ''J1''
     (emitted
       (run [Request (StartDownload video_options) browser_ok] (startup (ConnectOk 1)))
       (run [Request (StartDownload video_options) browser_ok, NativeDisconnect] (startup (ConnectOk 1)))) =
     [RuntimeSendMessage (DownloadError ''J1'' (Some ''Native host connection lost'')),
      RuntimeSendMessage (DownloadError ''J1'' (Some ''Native host disconnected''))]"
  using disconnect_job_errors
    [of "run [Request (StartDownload video_options) browser_ok] (startup (ConnectOk 1))"
        "''J1''" True]
  by (simp add: eval_defs quiescent_def wf_tables_def job_errors_def download_calls_def)

end
